theory Spec2Isabelle
  imports Main "HOL-Library.Word"
begin

section \<open>Values shared by the route files\<close>

text \<open>
  The repository holds several copies of one pipeline (list the invoices of each Stripe
  account, download each invoice PDF, merge them per category, mail the result):
  \<^item> \<^verbatim>\<open>src/app/api/generateAndEmail/route.js\<close>, the fail-fast copy; its definitions carry
    the suffix \<open>_gen\<close>;
  \<^item> the first module of \<^verbatim>\<open>src/app/api/scheduled/route.js\<close> (\<open>handler\<close>) and the first
    module of \<^verbatim>\<open>src/unnamed/part_000\<close> (\<open>runMonthlyJob\<close>), the graceful copies; they differ
    in where log lines go (\<open>console\<close> or the \<open>logs\<close> array through \<open>pushLog\<close>) and share
    the definitions without suffix;
  \<^item> the second module of \<^verbatim>\<open>src/unnamed/part_000\<close>, whose category block is
    \<open>finalPdf_range\<close>.

  A thrown JavaScript \<open>Error\<close> is a value of type \<open>error\<close>; a function that can throw
  returns \<open>error + 'a\<close>. Template literals render an error as \<open>Error: message\<close>.
\<close>

datatype error = Error string

fun string_of_error :: "error \<Rightarrow> string" where
  "string_of_error (Error m) = ''Error: '' @ m"

fun error_message :: "error \<Rightarrow> string" where
  "error_message (Error m) = m"

definition string_of_digit :: "nat \<Rightarrow> string" where
  "string_of_digit d = [''0123456789'' ! d]"

fun string_of_nat :: "nat \<Rightarrow> string" where
  "string_of_nat n =
     (if n < 10 then string_of_digit n
      else string_of_nat (n div 10) @ string_of_digit (n mod 10))"

declare string_of_nat.simps [simp del]

text \<open>
  \<open>!x\<close> on a value that is a string, \<open>null\<close> or \<open>undefined\<close> holds for \<open>null\<close>,
  \<open>undefined\<close> and the empty string. \<open>truthy x\<close> is the string when \<open>!x\<close> is false.
\<close>

definition truthy :: "string option \<Rightarrow> string option" where
  "truthy x = (case x of None \<Rightarrow> None | Some s \<Rightarrow> if s = [] then None else Some s)"

type_synonym buffer = "8 word list"

subsection \<open>The remote services\<close>

text \<open>
  An invoice as \<open>stripe.invoices.list\<close> returns it (the fields the code reads), the
  parameters of one list call and the page it answers with. \<open>data\<close> is optional because
  the code tests \<open>!invoices.data\<close>.
\<close>

record invoice =
  inv_id :: string
  inv_invoice_pdf :: "string option"
  inv_number :: string
  inv_status :: string
  inv_amount_paid :: int
  inv_amount_due :: int

record list_params =
  limit :: nat
  starting_after :: "string option"
  created_gte :: int
  created_lte :: int

record invoice_page =
  data :: "invoice list option"
  has_more :: bool

type_synonym stripe = "list_params \<Rightarrow> error + invoice_page"

type_synonym exchange = "list_params \<times> (error + invoice_page)"

text \<open>
  pdf-lib: a document is its list of pages, a page the texts drawn on it. \<open>load\<close> parses
  a buffer, \<open>copyPages\<close> copies pages into the merged document; both can throw.
  \<open>PDFDocument.create\<close>, \<open>addPage\<close>, \<open>drawText\<close> and \<open>save\<close> are taken not to throw.
\<close>

datatype page = Page "string list"

record pdflib =
  load :: "buffer \<Rightarrow> error + page list"
  copyPages :: "page list \<Rightarrow> error + page list"
  save :: "page list \<Rightarrow> buffer"

record attachment =
  filename :: string
  content :: buffer

record mail =
  mail_from :: string
  mail_to :: string
  subject :: string
  mail_text :: string
  attachments :: "attachment list"

record auth =
  user :: string
  pass :: string

text \<open>
  The capabilities a run consumes. \<open>http_get k url\<close> is the answer to the \<open>k\<close>-th
  \<open>http.get\<close> of the run (counted from 0) when it asks for \<open>url\<close>: a transport may fail
  on one attempt and answer the next. \<open>createTransport a\<close> is the \<open>sendMail\<close> of the
  transporter made for the credentials \<open>a\<close>; it answers \<open>None\<close> when the mail was
  accepted.
\<close>

record services =
  initStripe :: "string \<Rightarrow> error + stripe"
  http_get :: "nat \<Rightarrow> string \<Rightarrow> error + buffer"
  pdf :: pdflib
  createTransport :: "auth \<Rightarrow> mail \<Rightarrow> error option"

subsection \<open>The observable state of a run\<close>

text \<open>
  \<open>logs\<close> is the run log (the \<open>logs\<close> array of \<open>pushLog\<close>, or the console where a copy
  only prints); \<open>fetched\<close> lists the URLs asked of \<open>http.get\<close>, \<open>stripe_calls\<close> the list
  calls with their answers and \<open>sent\<close> the mails handed to \<open>sendMail\<close>, each in order.
\<close>

record world =
  logs :: "string list"
  fetched :: "string list"
  stripe_calls :: "exchange list"
  sent :: "mail list"

definition fresh :: world where
  "fresh = \<lparr>logs = [], fetched = [], stripe_calls = [], sent = []\<rparr>"

definition pushLog :: "world \<Rightarrow> string \<Rightarrow> world" where
  "pushLog w message = w\<lparr>logs := logs w @ [message]\<rparr>"

section \<open>downloadPdfInMemory\<close>

definition maxAttempts :: nat where
  "maxAttempts = 5"

text \<open>
  The \<open>try\<close> block of \<open>downloadPdfInMemory\<close> in \<^verbatim>\<open>scheduled/route.js\<close> (lines 25-32) and
  \<^verbatim>\<open>part_000\<close> (lines 39-46): \<open>Inr\<close> is what it returns, \<open>Inl\<close> what \<open>http.get\<close> threw.
\<close>

definition try_download ::
  "(nat \<Rightarrow> string \<Rightarrow> error + buffer) \<Rightarrow> string option \<Rightarrow> string \<Rightarrow> world
    \<Rightarrow> (error + buffer option) \<times> world" where
  "try_download get url invoiceNumber w =
     (case truthy url of
        None \<Rightarrow> (Inr None, pushLog w (''No PDF URL for invoice '' @ invoiceNumber))
      | Some u \<Rightarrow>
          (case get (length (fetched w)) u of
             Inr response_data \<Rightarrow>
               (Inr (Some response_data),
                pushLog (w\<lparr>fetched := fetched w @ [u]\<rparr>)
                  (''File downloaded in memory for invoice: '' @ invoiceNumber))
           | Inl err \<Rightarrow> (Inl err, w\<lparr>fetched := fetched w @ [u]\<rparr>)))"

function download_attempts ::
  "(nat \<Rightarrow> string \<Rightarrow> error + buffer) \<Rightarrow> string option \<Rightarrow> string \<Rightarrow> nat \<Rightarrow> world
    \<Rightarrow> buffer option \<times> world" where
  "download_attempts get url invoiceNumber attempt w =
     (if attempt \<le> maxAttempts then
        (case try_download get url invoiceNumber w of
           (Inr result, w1) \<Rightarrow> (result, w1)
         | (Inl err, w1) \<Rightarrow>
             (let w2 = pushLog w1 (''Error downloading '' @ invoiceNumber @ '' (attempt ''
                         @ string_of_nat attempt @ ''): '' @ string_of_error err)
              in if attempt = maxAttempts
                 then (None, pushLog w2 (''Skipping invoice '' @ invoiceNumber
                         @ '' after max attempts''))
                 else download_attempts get url invoiceNumber (attempt + 1) w2))
      else (None, w))"
  by pat_completeness auto
termination
  by (relation "measure (\<lambda>(get, url, invoiceNumber, attempt, w). Suc maxAttempts - attempt)")
     auto

declare download_attempts.simps [simp del]

definition downloadPdfInMemory ::
  "(nat \<Rightarrow> string \<Rightarrow> error + buffer) \<Rightarrow> string option \<Rightarrow> string \<Rightarrow> world
    \<Rightarrow> buffer option \<times> world" where
  "downloadPdfInMemory get url invoiceNumber w = download_attempts get url invoiceNumber 1 w"

text \<open>
  \<^verbatim>\<open>generateAndEmail/route.js\<close> (lines 10-33): a missing URL is thrown inside the \<open>try\<close>,
  so the \<open>catch\<close> of the same loop receives it; after the last attempt the \<open>catch\<close> throws
  to the caller. The function falls off its end (\<open>undefined\<close>, here \<open>Inr None\<close>) only if
  the loop condition fails.
\<close>

definition try_download_gen ::
  "(nat \<Rightarrow> string \<Rightarrow> error + buffer) \<Rightarrow> string option \<Rightarrow> string \<Rightarrow> world
    \<Rightarrow> (error + buffer) \<times> world" where
  "try_download_gen get url invoiceNumber w =
     (case truthy url of
        None \<Rightarrow> (Inl (Error (''PDF URL missing for invoice number: '' @ invoiceNumber)), w)
      | Some u \<Rightarrow>
          (case get (length (fetched w)) u of
             Inr response_data \<Rightarrow>
               (Inr response_data,
                pushLog (w\<lparr>fetched := fetched w @ [u]\<rparr>)
                  (''File downloaded in memory for invoice: '' @ invoiceNumber))
           | Inl err \<Rightarrow> (Inl err, w\<lparr>fetched := fetched w @ [u]\<rparr>)))"

function download_attempts_gen ::
  "(nat \<Rightarrow> string \<Rightarrow> error + buffer) \<Rightarrow> string option \<Rightarrow> string \<Rightarrow> nat \<Rightarrow> world
    \<Rightarrow> (error + buffer option) \<times> world" where
  "download_attempts_gen get url invoiceNumber attempt w =
     (if attempt \<le> maxAttempts then
        (case try_download_gen get url invoiceNumber w of
           (Inr response_data, w1) \<Rightarrow> (Inr (Some response_data), w1)
         | (Inl err, w1) \<Rightarrow>
             (let w2 = pushLog w1 (''Error downloading '' @ invoiceNumber @ '': ''
                         @ string_of_error err)
              in if attempt = maxAttempts
                 then (Inl (Error (''Failed to download '' @ invoiceNumber @ '' after ''
                         @ string_of_nat attempt @ '' attempts'')), w2)
                 else download_attempts_gen get url invoiceNumber (attempt + 1)
                        (pushLog w2 (''Retrying download of '' @ invoiceNumber
                           @ '' (attempt '' @ string_of_nat attempt @ '')''))))
      else (Inr None, w))"
  by pat_completeness auto
termination
  by (relation "measure (\<lambda>(get, url, invoiceNumber, attempt, w). Suc maxAttempts - attempt)")
     auto

declare download_attempts_gen.simps [simp del]

definition downloadPdfInMemory_gen ::
  "(nat \<Rightarrow> string \<Rightarrow> error + buffer) \<Rightarrow> string option \<Rightarrow> string \<Rightarrow> world
    \<Rightarrow> (error + buffer option) \<times> world" where
  "downloadPdfInMemory_gen get url invoiceNumber w =
     download_attempts_gen get url invoiceNumber 1 w"

section \<open>mergePdfs and createEmptyPdf\<close>

text \<open>
  The loop of \<open>mergePdfs\<close> in \<^verbatim>\<open>scheduled/route.js\<close> (lines 50-58) and \<^verbatim>\<open>part_000\<close>
  (lines 66-74): \<open>mergedPdf\<close> is the list of pages added so far; a \<open>null\<close> entry is
  skipped; \<open>Inl\<close> is what \<open>load\<close> or \<open>copyPages\<close> threw.
\<close>

fun merge_buffers :: "pdflib \<Rightarrow> buffer option list \<Rightarrow> page list \<Rightarrow> error + page list" where
  "merge_buffers lib [] mergedPdf = Inr mergedPdf"
| "merge_buffers lib (None # rest) mergedPdf = merge_buffers lib rest mergedPdf"
| "merge_buffers lib (Some buffer # rest) mergedPdf =
     (case load lib buffer of
        Inl err \<Rightarrow> Inl err
      | Inr tempPdf \<Rightarrow>
          (case copyPages lib tempPdf of
             Inl err \<Rightarrow> Inl err
           | Inr copiedPages \<Rightarrow> merge_buffers lib rest (mergedPdf @ copiedPages)))"

definition mergePdfs :: "pdflib \<Rightarrow> buffer option list \<Rightarrow> world \<Rightarrow> buffer option \<times> world" where
  "mergePdfs lib pdfBuffers w =
     (case merge_buffers lib pdfBuffers [] of
        Inr mergedPdf \<Rightarrow> (Some (save lib mergedPdf), w)
      | Inl err \<Rightarrow> (None, pushLog w (''Error merging PDF buffers: '' @ string_of_error err)))"

text \<open>
  \<^verbatim>\<open>generateAndEmail/route.js\<close> (lines 36-47): no test for \<open>null\<close> and no \<open>catch\<close>. Its
  caller pushes only truthy buffers, so the list holds buffers.
\<close>

fun merge_buffers_gen :: "pdflib \<Rightarrow> buffer list \<Rightarrow> page list \<Rightarrow> error + page list" where
  "merge_buffers_gen lib [] mergedPdf = Inr mergedPdf"
| "merge_buffers_gen lib (buffer # rest) mergedPdf =
     (case load lib buffer of
        Inl err \<Rightarrow> Inl err
      | Inr tempPdf \<Rightarrow>
          (case copyPages lib tempPdf of
             Inl err \<Rightarrow> Inl err
           | Inr copiedPages \<Rightarrow> merge_buffers_gen lib rest (mergedPdf @ copiedPages)))"

definition mergePdfs_gen :: "pdflib \<Rightarrow> buffer list \<Rightarrow> error + buffer" where
  "mergePdfs_gen lib pdfBuffers =
     (case merge_buffers_gen lib pdfBuffers [] of
        Inr mergedPdf \<Rightarrow> Inr (save lib mergedPdf)
      | Inl err \<Rightarrow> Inl err)"

text \<open>
  \<open>createEmptyPdf\<close>: one page with one text. With a pdf-lib that does not throw here the
  \<open>catch\<close> of the graceful copies has no branch; they still return an optional buffer,
  which their caller tests.
\<close>

definition placeholder :: "page list" where
  "placeholder = [Page [''No data available for this category.'']]"

definition createEmptyPdf :: "pdflib \<Rightarrow> world \<Rightarrow> buffer option \<times> world" where
  "createEmptyPdf lib w = (Some (save lib placeholder), w)"

definition createEmptyPdf_gen :: "pdflib \<Rightarrow> buffer" where
  "createEmptyPdf_gen lib = save lib placeholder"

section \<open>getInvoices\<close>

record pdfLink =
  invoice_pdf :: "string option"
  invoice_number :: string
  amount_paid :: int
  amount_due :: int

record links =
  paidAndOpenLinks :: "pdfLink list"
  otherStatusLinks :: "pdfLink list"

definition pdfLink_of :: "invoice \<Rightarrow> pdfLink" where
  "pdfLink_of invoice =
     \<lparr>invoice_pdf = inv_invoice_pdf invoice, invoice_number = inv_number invoice,
      amount_paid = inv_amount_paid invoice, amount_due = inv_amount_due invoice\<rparr>"

definition push_link :: "invoice \<Rightarrow> links \<Rightarrow> links" where
  "push_link invoice ls =
     (if inv_status invoice \<in> set [''paid'', ''open'']
      then ls\<lparr>paidAndOpenLinks := paidAndOpenLinks ls @ [pdfLink_of invoice]\<rparr>
      else ls\<lparr>otherStatusLinks := otherStatusLinks ls @ [pdfLink_of invoice]\<rparr>)"

text \<open>
  The lines each copy logs per invoice: \<^verbatim>\<open>generateAndEmail/route.js\<close> (lines 87-88) and
  \<^verbatim>\<open>scheduled/route.js\<close> (lines 110-111) print two, \<^verbatim>\<open>part_000\<close> (line 126) pushes one.
\<close>

definition console_lines :: "invoice \<Rightarrow> string list" where
  "console_lines invoice = [''Invoice ID: '' @ inv_id invoice, ''---------------------------'']"

definition pushed_lines :: "invoice \<Rightarrow> string list" where
  "pushed_lines invoice = [''Invoice ID: '' @ inv_id invoice]"

text \<open>The body of the loop over \<open>invoices.data\<close>.\<close>

fun each_invoice ::
  "(invoice \<Rightarrow> string list) \<Rightarrow> invoice list \<Rightarrow> links \<times> world \<Rightarrow> links \<times> world" where
  "each_invoice lines [] st = st"
| "each_invoice lines (invoice # rest) (ls, w) =
     each_invoice lines rest (push_link invoice ls, w\<lparr>logs := logs w @ lines invoice\<rparr>)"

text \<open>
  The \<open>while (true)\<close> loop of \<open>getInvoices\<close>. It has no bound of its own: the first
  argument bounds the number of list calls, and \<open>None\<close> says the bound was reached before
  the loop ended. Otherwise the result says whether the loop ended by \<open>break\<close> (\<open>None\<close>)
  or by an exception of \<open>stripe.invoices.list\<close> (\<open>Some err\<close>), with the lists and the
  state at that point.
\<close>

fun list_pages ::
  "nat \<Rightarrow> (invoice \<Rightarrow> string list) \<Rightarrow> stripe \<Rightarrow> int \<Rightarrow> int \<Rightarrow> string option
    \<Rightarrow> links \<times> world \<Rightarrow> (error option \<times> links \<times> world) option" where
  "list_pages 0 lines stripe gte lte cursor st = None"
| "list_pages (Suc fuel) lines stripe gte lte cursor (ls, w) =
     (let params = \<lparr>limit = 10, starting_after = cursor, created_gte = gte,
                     created_lte = lte\<rparr>;
          w1 = w\<lparr>stripe_calls := stripe_calls w @ [(params, stripe params)]\<rparr>
      in case stripe params of
           Inl err \<Rightarrow> Some (Some err, ls, w1)
         | Inr invoices \<Rightarrow>
             (case data invoices of
                None \<Rightarrow> Some (None, ls, w1)
              | Some d \<Rightarrow>
                  if length d = 0 then Some (None, ls, w1)
                  else (let st2 = each_invoice lines d (ls, w1)
                        in if \<not> has_more invoices then Some (None, st2)
                           else list_pages fuel lines stripe gte lte
                                  (Some (inv_id (d ! (length d - 1)))) st2)))"

definition no_links :: links where
  "no_links = \<lparr>paidAndOpenLinks = [], otherStatusLinks = []\<rparr>"

text \<open>
  \<open>getInvoices\<close> of \<^verbatim>\<open>generateAndEmail/route.js\<close> (lines 58-95): an exception of the list
  call leaves the function.
\<close>

definition getInvoices_gen ::
  "nat \<Rightarrow> stripe \<Rightarrow> int \<Rightarrow> int \<Rightarrow> world \<Rightarrow> ((error + links) \<times> world) option" where
  "getInvoices_gen fuel stripe gte lte w =
     (case list_pages fuel console_lines stripe gte lte None (no_links, w) of
        None \<Rightarrow> None
      | Some (None, ls, w1) \<Rightarrow> Some (Inr ls, w1)
      | Some (Some err, ls, w1) \<Rightarrow> Some (Inl err, w1))"

text \<open>
  \<open>getInvoices\<close> of \<^verbatim>\<open>scheduled/route.js\<close> (lines 80-124) and \<^verbatim>\<open>part_000\<close> (lines 96-138):
  the \<open>catch\<close> logs and returns two new empty arrays.
\<close>

definition getInvoices_with ::
  "(invoice \<Rightarrow> string list) \<Rightarrow> nat \<Rightarrow> stripe \<Rightarrow> int \<Rightarrow> int \<Rightarrow> world
    \<Rightarrow> (links \<times> world) option" where
  "getInvoices_with lines fuel stripe gte lte w =
     (case list_pages fuel lines stripe gte lte None (no_links, w) of
        None \<Rightarrow> None
      | Some (None, ls, w1) \<Rightarrow> Some (ls, w1)
      | Some (Some err, ls, w1) \<Rightarrow>
          Some (\<lparr>paidAndOpenLinks = [], otherStatusLinks = []\<rparr>,
                pushLog w1 (''Error fetching invoices from Stripe: '' @ string_of_error err)))"

definition getInvoices :: "nat \<Rightarrow> stripe \<Rightarrow> int \<Rightarrow> int \<Rightarrow> world \<Rightarrow> (links \<times> world) option" where
  "getInvoices = getInvoices_with console_lines"

definition getInvoices_job :: "nat \<Rightarrow> stripe \<Rightarrow> int \<Rightarrow> int \<Rightarrow> world \<Rightarrow> (links \<times> world) option" where
  "getInvoices_job = getInvoices_with pushed_lines"

section \<open>The run\<close>

text \<open>
  The environment variables a run reads, and the values it derives from the clock through
  \<open>Date\<close> before the first remote call: the window in epoch seconds, the names used in
  file names and subjects, and the ISO renderings it logs. The models of \<open>handler\<close>,
  \<open>runMonthlyJob\<close> and \<open>POST\<close> take these values as given; \<open>POST\<close> is modelled from
  the point where its date range is built (line 125 of \<^verbatim>\<open>generateAndEmail/route.js\<close>).
\<close>

record env =
  STRIPE_PC :: "string option"
  STRIPE_ET :: "string option"
  STRIPE_PCP :: "string option"
  ADMIN_EMAIL :: "string option"
  GMAIL_APP_PASSWORD :: "string option"

record dates =
  iso_now :: string
  iso_lastMonthDate :: string
  iso_startDate :: string
  iso_endDate :: string
  window_gte :: int
  window_lte :: int
  monthName :: string
  yearText :: string

definition STRIPE_KEYS :: "env \<Rightarrow> (string \<times> string option) list" where
  "STRIPE_KEYS e = [(''PC'', STRIPE_PC e), (''ET'', STRIPE_ET e), (''PCP'', STRIPE_PCP e)]"

definition upper_char :: "char \<Rightarrow> char" where
  "upper_char c =
     (case map_of (zip ''abcdefghijklmnopqrstuvwxyz'' ''ABCDEFGHIJKLMNOPQRSTUVWXYZ'') c of
        Some C \<Rightarrow> C
      | None \<Rightarrow> c)"

definition toUpperCase :: "string \<Rightarrow> string" where
  "toUpperCase s = map upper_char s"

record bundles =
  attachmentsET :: "attachment list"
  attachmentsNonET :: "attachment list"

definition no_bundles :: bundles where
  "no_bundles = \<lparr>attachmentsET = [], attachmentsNonET = []\<rparr>"

definition push_attachment :: "string \<Rightarrow> attachment \<Rightarrow> bundles \<Rightarrow> bundles" where
  "push_attachment configKey a b =
     (if configKey = ''ET'' then b\<lparr>attachmentsET := attachmentsET b @ [a]\<rparr>
      else b\<lparr>attachmentsNonET := attachmentsNonET b @ [a]\<rparr>)"

definition categories :: "links \<Rightarrow> (string \<times> pdfLink list) list" where
  "categories ls =
     [(''Paid_And_Open'', paidAndOpenLinks ls), (''Other_Status'', otherStatusLinks ls)]"

definition attachment_name :: "dates \<Rightarrow> string \<Rightarrow> string \<Rightarrow> string" where
  "attachment_name d configKey name =
     toUpperCase configKey @ ''-'' @ name @ ''-'' @ monthName d @ ''-'' @ yearText d @ ''.pdf''"

subsection \<open>The category block of the graceful copies\<close>

text \<open>
  The loop over \<open>cat.links\<close> (\<^verbatim>\<open>scheduled/route.js\<close> lines 224-236, \<^verbatim>\<open>part_000\<close> lines
  222-234 and 580-588). \<open>downloadPdfInMemory\<close> of these copies returns and never throws,
  so the \<open>catch\<close> around the call has no branch.
\<close>

fun download_links ::
  "(nat \<Rightarrow> string \<Rightarrow> error + buffer) \<Rightarrow> pdfLink list \<Rightarrow> buffer list \<Rightarrow> world
    \<Rightarrow> buffer list \<times> world" where
  "download_links get [] pdfBuffers w = (pdfBuffers, w)"
| "download_links get (invoice # rest) pdfBuffers w =
     (case downloadPdfInMemory get (invoice_pdf invoice) (invoice_number invoice) w of
        (Some buff, w1) \<Rightarrow> download_links get rest (pdfBuffers @ [buff]) w1
      | (None, w1) \<Rightarrow> download_links get rest pdfBuffers w1)"

text \<open>
  \<open>finalPdfBuffer\<close> of one category in \<open>handler\<close> (\<^verbatim>\<open>scheduled/route.js\<close> lines 219-247)
  and in the first \<open>runMonthlyJob\<close> (\<^verbatim>\<open>part_000\<close> lines 218-244): with links, the merge is
  called on whatever was downloaded.
\<close>

definition finalPdf ::
  "services \<Rightarrow> string \<Rightarrow> string \<Rightarrow> pdfLink list \<Rightarrow> world \<Rightarrow> buffer option \<times> world" where
  "finalPdf svc configKey name cat_links w =
     (if length cat_links > 0 then
        (case download_links (http_get svc) cat_links [] w of
           (pdfBuffers, w1) \<Rightarrow>
             (case mergePdfs (pdf svc) (map Some pdfBuffers) w1 of
                (Some merged, w2) \<Rightarrow> (Some merged, w2)
              | (None, w2) \<Rightarrow>
                  createEmptyPdf (pdf svc)
                    (pushLog w2 (''Merging failed or empty for '' @ configKey @ ''-'' @ name
                       @ '', creating fallback PDF...''))))
      else createEmptyPdf (pdf svc) w)"

text \<open>
  The same block in the second \<open>runMonthlyJob\<close> (\<^verbatim>\<open>part_000\<close> lines 575-600): the merge is
  called only on a non-empty buffer list.
\<close>

definition finalPdf_range ::
  "services \<Rightarrow> string \<Rightarrow> string \<Rightarrow> pdfLink list \<Rightarrow> world \<Rightarrow> buffer option \<times> world" where
  "finalPdf_range svc configKey name cat_links w =
     (if length cat_links > 0 then
        (case download_links (http_get svc) cat_links [] w of
           (pdfBuffers, w1) \<Rightarrow>
             if length pdfBuffers > 0 then mergePdfs (pdf svc) (map Some pdfBuffers) w1
             else createEmptyPdf (pdf svc)
                    (pushLog w1 (''No valid PDFs for '' @ configKey @ ''-'' @ name
                       @ '', creating empty PDF'')))
      else createEmptyPdf (pdf svc) w)"

text \<open>The loop over the two categories of one key, and the loop over the keys.\<close>

fun each_category ::
  "services \<Rightarrow> dates \<Rightarrow> string \<Rightarrow> (string \<times> pdfLink list) list \<Rightarrow> bundles \<times> world
    \<Rightarrow> bundles \<times> world" where
  "each_category svc d configKey [] st = st"
| "each_category svc d configKey ((name, cat_links) # rest) (b, w) =
     (case finalPdf svc configKey name cat_links w of
        (None, w1) \<Rightarrow>
          each_category svc d configKey rest
            (b, pushLog w1 (''Could not create final PDF for '' @ configKey @ ''-'' @ name
                  @ '', skipping attachment...''))
      | (Some finalPdfBuffer, w1) \<Rightarrow>
          each_category svc d configKey rest
            (push_attachment configKey
               \<lparr>filename = attachment_name d configKey name, content = finalPdfBuffer\<rparr> b,
             w1))"

fun each_key ::
  "(invoice \<Rightarrow> string list) \<Rightarrow> nat \<Rightarrow> services \<Rightarrow> dates \<Rightarrow> (string \<times> string option) list
    \<Rightarrow> bundles \<times> world \<Rightarrow> (bundles \<times> world) option" where
  "each_key lines fuel svc d [] st = Some st"
| "each_key lines fuel svc d ((configKey, keyVal) # rest) (b, w) =
     (case truthy keyVal of
        None \<Rightarrow>
          each_key lines fuel svc d rest
            (b, pushLog w (''Missing environment variable for '' @ configKey
                  @ '', skipping...''))
      | Some k \<Rightarrow>
          (case initStripe svc k of
             Inl err \<Rightarrow>
               each_key lines fuel svc d rest
                 (b, pushLog w (''Error initializing Stripe or retrieving data for ''
                       @ configKey @ '': '' @ string_of_error err))
           | Inr stripe \<Rightarrow>
               (case getInvoices_with lines fuel stripe (window_gte d) (window_lte d) w of
                  None \<Rightarrow> None
                | Some (ls, w1) \<Rightarrow>
                    each_key lines fuel svc d rest
                      (each_category svc d configKey (categories ls) (b, w1)))))"

subsection \<open>Dispatch in the graceful copies\<close>

definition credentials :: "env \<Rightarrow> auth option" where
  "credentials e =
     (case truthy (ADMIN_EMAIL e) of
        None \<Rightarrow> None
      | Some adminEmail \<Rightarrow>
          (case truthy (GMAIL_APP_PASSWORD e) of
             None \<Rightarrow> None
           | Some gmailAppPassword \<Rightarrow> Some \<lparr>user = adminEmail, pass = gmailAppPassword\<rparr>))"

definition sendMail :: "services \<Rightarrow> auth \<Rightarrow> mail \<Rightarrow> world \<Rightarrow> error option \<times> world" where
  "sendMail svc a m w = (createTransport svc a m, w\<lparr>sent := sent w @ [m]\<rparr>)"

definition mail_ET :: "string \<Rightarrow> dates \<Rightarrow> bundles \<Rightarrow> mail" where
  "mail_ET adminEmail d b =
     \<lparr>mail_from = adminEmail, mail_to = ''mumair299792458u@gmail.com'',
      subject = ''PDF Invoices for '' @ monthName d @ '' '' @ yearText d @ '' (ET)'',
      mail_text = ''Attached are the combined PDF invoices (ET) for '' @ monthName d
                    @ '', '' @ yearText d @ ''.'',
      attachments = attachmentsET b\<rparr>"

definition mail_NonET :: "string \<Rightarrow> dates \<Rightarrow> bundles \<Rightarrow> mail" where
  "mail_NonET adminEmail d b =
     \<lparr>mail_from = adminEmail, mail_to = ''uzairshabbirsab@gmail.com'',
      subject = ''PDF Invoices for '' @ monthName d @ '' '' @ yearText d @ '' (PC & PCP)'',
      mail_text = ''Attached are the combined PDF invoices (PC & PCP) for '' @ monthName d
                    @ '', '' @ yearText d @ ''.'',
      attachments = attachmentsNonET b\<rparr>"

text \<open>
  Steps 4 and 5 of \<open>handler\<close> (\<^verbatim>\<open>scheduled/route.js\<close> lines 288-321) and of the first
  \<open>runMonthlyJob\<close> (\<^verbatim>\<open>part_000\<close> lines 288-321): each send in its own \<open>try\<close>.
\<close>

definition send_ET :: "services \<Rightarrow> auth \<Rightarrow> dates \<Rightarrow> bundles \<Rightarrow> world \<Rightarrow> world" where
  "send_ET svc a d b w =
     (if length (attachmentsET b) > 0 then
        (case sendMail svc a (mail_ET (user a) d b) w of
           (None, w1) \<Rightarrow> pushLog w1 ''ET email sent successfully.''
         | (Some err, w1) \<Rightarrow> pushLog w1 (''Error sending ET email: '' @ string_of_error err))
      else pushLog w ''No ET attachments to send.'')"

definition send_NonET :: "services \<Rightarrow> auth \<Rightarrow> dates \<Rightarrow> bundles \<Rightarrow> world \<Rightarrow> world" where
  "send_NonET svc a d b w =
     (if length (attachmentsNonET b) > 0 then
        (case sendMail svc a (mail_NonET (user a) d b) w of
           (None, w1) \<Rightarrow> pushLog w1 ''PC & PCP email sent successfully.''
         | (Some err, w1) \<Rightarrow>
             pushLog w1 (''Error sending PC/PCP email: '' @ string_of_error err))
      else pushLog w ''No PC/PCP attachments to send.'')"

text \<open>
  From the credentials test to the end of the job (\<^verbatim>\<open>scheduled/route.js\<close> lines 269-325,
  \<^verbatim>\<open>part_000\<close> lines 265-329): the boolean is the \<open>success\<close> of the result.
\<close>

definition deliver :: "services \<Rightarrow> env \<Rightarrow> dates \<Rightarrow> bundles \<Rightarrow> world \<Rightarrow> bool \<times> world" where
  "deliver svc e d b w =
     (case credentials e of
        None \<Rightarrow>
          (False, pushLog w
             ''Missing Gmail credentials. Please set ADMIN_EMAIL & GMAIL_APP_PASSWORD.'')
      | Some a \<Rightarrow>
          (True, pushLog (send_NonET svc a d b (send_ET svc a d b w))
             ''===== Monthly PDF email job completed. =====''))"

definition start_lines :: "dates \<Rightarrow> string list" where
  "start_lines d =
     [''===== Starting monthly PDF email job ====='',
      ''Now: '' @ iso_now d,
      ''Last Month Date: '' @ iso_lastMonthDate d,
      ''Start date: '' @ iso_startDate d,
      ''End date: '' @ iso_endDate d]"

text \<open>Steps 1 to 2 (3 in \<^verbatim>\<open>part_000\<close>): everything before the credentials test.\<close>

definition collect ::
  "(invoice \<Rightarrow> string list) \<Rightarrow> nat \<Rightarrow> services \<Rightarrow> env \<Rightarrow> dates \<Rightarrow> (bundles \<times> world) option" where
  "collect lines fuel svc e d =
     each_key lines fuel svc d (STRIPE_KEYS e) (no_bundles, fresh\<lparr>logs := start_lines d\<rparr>)"

text \<open>The JSON body and status of a \<open>NextResponse\<close>; a field the body lacks is \<open>None\<close>.\<close>

record response =
  success :: "bool option"
  message :: "string option"
  status :: nat

text \<open>\<open>handler\<close> of \<^verbatim>\<open>scheduled/route.js\<close> (lines 147-326); its log is the console.\<close>

definition handler :: "nat \<Rightarrow> services \<Rightarrow> env \<Rightarrow> dates \<Rightarrow> (response \<times> world) option" where
  "handler fuel svc e d =
     (case collect console_lines fuel svc e d of
        None \<Rightarrow> None
      | Some (b, w) \<Rightarrow>
          (case deliver svc e d b w of
             (True, w1) \<Rightarrow> Some (\<lparr>success = Some True, message = None, status = 200\<rparr>, w1)
           | (False, w1) \<Rightarrow>
               Some (\<lparr>success = Some False, message = Some ''Missing email credentials'',
                      status = 200\<rparr>, w1)))"

text \<open>The first \<open>runMonthlyJob\<close> of \<^verbatim>\<open>part_000\<close> (lines 147-330) and its result object.\<close>

record job_result =
  job_success :: bool
  job_logs :: "string list"
  job_month :: string
  job_year :: string
  job_message :: "string option"

definition runMonthlyJob :: "nat \<Rightarrow> services \<Rightarrow> env \<Rightarrow> dates \<Rightarrow> (job_result \<times> world) option" where
  "runMonthlyJob fuel svc e d =
     (case collect pushed_lines fuel svc e d of
        None \<Rightarrow> None
      | Some (b, w) \<Rightarrow>
          (case deliver svc e d b w of
             (ok, w1) \<Rightarrow>
               Some (\<lparr>job_success = ok, job_logs = logs w1, job_month = monthName d,
                      job_year = yearText d,
                      job_message = (if ok then None else Some ''Missing email credentials'')\<rparr>,
                     w1)))"

subsection \<open>The run of the fail-fast copy\<close>

text \<open>
  \<^verbatim>\<open>generateAndEmail/route.js\<close>: the loop over \<open>cat.links\<close> (lines 177-184) and
  \<open>finalPdfBuffer\<close> of one category (lines 172-189). An exception of a download or of the
  merge leaves the block.
\<close>

fun download_links_gen ::
  "(nat \<Rightarrow> string \<Rightarrow> error + buffer) \<Rightarrow> pdfLink list \<Rightarrow> buffer list \<Rightarrow> world
    \<Rightarrow> (error + buffer list) \<times> world" where
  "download_links_gen get [] pdfBuffers w = (Inr pdfBuffers, w)"
| "download_links_gen get (invoice # rest) pdfBuffers w =
     (case downloadPdfInMemory_gen get (invoice_pdf invoice) (invoice_number invoice) w of
        (Inl err, w1) \<Rightarrow> (Inl err, w1)
      | (Inr (Some buffer), w1) \<Rightarrow> download_links_gen get rest (pdfBuffers @ [buffer]) w1
      | (Inr None, w1) \<Rightarrow> download_links_gen get rest pdfBuffers w1)"

definition finalPdf_gen :: "services \<Rightarrow> pdfLink list \<Rightarrow> world \<Rightarrow> (error + buffer) \<times> world" where
  "finalPdf_gen svc cat_links w =
     (if length cat_links > 0 then
        (case download_links_gen (http_get svc) cat_links [] w of
           (Inl err, w1) \<Rightarrow> (Inl err, w1)
         | (Inr pdfBuffers, w1) \<Rightarrow> (mergePdfs_gen (pdf svc) pdfBuffers, w1))
      else (Inr (createEmptyPdf_gen (pdf svc)), w))"

fun each_category_gen ::
  "services \<Rightarrow> dates \<Rightarrow> string \<Rightarrow> (string \<times> pdfLink list) list \<Rightarrow> bundles \<times> world
    \<Rightarrow> (error + bundles) \<times> world" where
  "each_category_gen svc d configKey [] (b, w) = (Inr b, w)"
| "each_category_gen svc d configKey ((name, cat_links) # rest) (b, w) =
     (case finalPdf_gen svc cat_links w of
        (Inl err, w1) \<Rightarrow> (Inl err, w1)
      | (Inr finalPdfBuffer, w1) \<Rightarrow>
          each_category_gen svc d configKey rest
            (push_attachment configKey
               \<lparr>filename = attachment_name d configKey name, content = finalPdfBuffer\<rparr> b,
             w1))"

text \<open>
  The loop over the keys of \<^verbatim>\<open>config.json\<close> (lines 161-204). The file is not part of the
  sources: its entries are the argument \<open>config\<close>, in the order of \<open>Object.keys\<close>.
\<close>

fun each_key_gen ::
  "nat \<Rightarrow> services \<Rightarrow> dates \<Rightarrow> (string \<times> string) list \<Rightarrow> bundles \<times> world
    \<Rightarrow> ((error + bundles) \<times> world) option" where
  "each_key_gen fuel svc d [] (b, w) = Some (Inr b, w)"
| "each_key_gen fuel svc d ((configKey, keyVal) # rest) (b, w) =
     (case initStripe svc keyVal of
        Inl err \<Rightarrow> Some (Inl err, w)
      | Inr stripe \<Rightarrow>
          (case getInvoices_gen fuel stripe (window_gte d) (window_lte d) w of
             None \<Rightarrow> None
           | Some (Inl err, w1) \<Rightarrow> Some (Inl err, w1)
           | Some (Inr ls, w1) \<Rightarrow>
               (case each_category_gen svc d configKey (categories ls) (b, w1) of
                  (Inl err, w2) \<Rightarrow> Some (Inl err, w2)
                | (Inr b2, w2) \<Rightarrow> each_key_gen fuel svc d rest (b2, w2))))"

text \<open>
  From the credentials test to the success response (lines 208-253): no log line for
  missing credentials, and a failed \<open>sendMail\<close> is an exception of the block.
\<close>

definition deliver_gen ::
  "services \<Rightarrow> env \<Rightarrow> dates \<Rightarrow> bundles \<Rightarrow> world \<Rightarrow> (error + response) \<times> world" where
  "deliver_gen svc e d b w =
     (case credentials e of
        None \<Rightarrow>
          (Inr \<lparr>success = None,
                message = Some (''Missing credentials. Make sure ADMIN_EMAIL and ''
                                  @ ''GMAIL_APP_PASSWORD are set.''),
                status = 500\<rparr>, w)
      | Some a \<Rightarrow>
          (case (if length (attachmentsET b) > 0
                 then sendMail svc a (mail_ET (user a) d b) w else (None, w)) of
             (Some err, w1) \<Rightarrow> (Inl err, w1)
           | (None, w1) \<Rightarrow>
               (case (if length (attachmentsNonET b) > 0
                      then sendMail svc a (mail_NonET (user a) d b) w1 else (None, w1)) of
                  (Some err, w2) \<Rightarrow> (Inl err, w2)
                | (None, w2) \<Rightarrow>
                    (Inr \<lparr>success = Some True, message = None, status = 200\<rparr>, w2))))"

text \<open>
  \<open>POST\<close> from line 125 on, inside its \<open>try\<close>: the part before the credentials test,
  then \<open>deliver_gen\<close>. The \<open>catch\<close> (lines 254-260) turns every exception into a
  response with status 500.
\<close>

definition start_lines_gen :: "dates \<Rightarrow> string list" where
  "start_lines_gen d = [''Start date: '' @ iso_startDate d, ''End date: '' @ iso_endDate d]"

definition collect_gen ::
  "nat \<Rightarrow> services \<Rightarrow> (string \<times> string) list \<Rightarrow> dates
    \<Rightarrow> ((error + bundles) \<times> world) option" where
  "collect_gen fuel svc config d =
     each_key_gen fuel svc d config (no_bundles, fresh\<lparr>logs := start_lines_gen d\<rparr>)"

definition POST_body ::
  "nat \<Rightarrow> services \<Rightarrow> env \<Rightarrow> (string \<times> string) list \<Rightarrow> dates
    \<Rightarrow> ((error + response) \<times> world) option" where
  "POST_body fuel svc e config d =
     (case collect_gen fuel svc config d of
        None \<Rightarrow> None
      | Some (Inl err, w) \<Rightarrow> Some (Inl err, w)
      | Some (Inr b, w) \<Rightarrow> Some (deliver_gen svc e d b w))"

definition POST ::
  "nat \<Rightarrow> services \<Rightarrow> env \<Rightarrow> (string \<times> string) list \<Rightarrow> dates \<Rightarrow> (response \<times> world) option" where
  "POST fuel svc e config d =
     (case POST_body fuel svc e config d of
        None \<Rightarrow> None
      | Some (Inr r, w) \<Rightarrow> Some (r, w)
      | Some (Inl err, w) \<Rightarrow>
          Some (\<lparr>success = Some False, message = Some (error_message err), status = 500\<rparr>,
                pushLog w (''Error generating or emailing PDFs: '' @ string_of_error err)))"

section \<open>Derived notions used in the statements\<close>




text \<open>
  The records of the pages that a sequence of list calls received, in the order received,
  and the two lists after classifying a sequence of records onto given lists.
\<close>

definition page_records :: "exchange \<Rightarrow> invoice list" where
  "page_records x =
     (case snd x of
        Inl err \<Rightarrow> []
      | Inr invoices \<Rightarrow> (case data invoices of None \<Rightarrow> [] | Some d \<Rightarrow> d))"

definition received :: "exchange list \<Rightarrow> invoice list" where
  "received xs = concat (map page_records xs)"

definition classified :: "links \<Rightarrow> invoice list \<Rightarrow> links" where
  "classified ls rs =
     \<lparr>paidAndOpenLinks = paidAndOpenLinks ls
        @ map pdfLink_of (filter (\<lambda>i. inv_status i = ''paid'' \<or> inv_status i = ''open'') rs),
      otherStatusLinks = otherStatusLinks ls
        @ map pdfLink_of
            (filter (\<lambda>i. inv_status i \<noteq> ''paid'' \<and> inv_status i \<noteq> ''open'') rs)\<rparr>"

text \<open>
  The list calls of one listing, written from the specification of the pagination: every
  call asks for 10 records of the window, the first with the given cursor; a page with
  records and \<open>has_more\<close> is followed by a call whose cursor is the id of its last record;
  an exception, a page without records or a page without \<open>has_more\<close> is the last
  exchange. The last argument says how the listing ended.
\<close>

fun paged ::
  "stripe \<Rightarrow> int \<Rightarrow> int \<Rightarrow> string option \<Rightarrow> exchange list \<Rightarrow> error option \<Rightarrow> bool" where
  "paged s g l c [] r = False"
| "paged s g l c ((params, answer) # rest) r =
     (params = \<lparr>limit = 10, starting_after = c, created_gte = g, created_lte = l\<rparr>
      \<and> answer = s params
      \<and> (case answer of
           Inl err \<Rightarrow> rest = [] \<and> r = Some err
         | Inr invoices \<Rightarrow>
             (case data invoices of
                None \<Rightarrow> rest = [] \<and> r = None
              | Some d \<Rightarrow>
                  if d = [] \<or> \<not> has_more invoices then rest = [] \<and> r = None
                  else paged s g l (Some (inv_id (last d))) rest r)))"

subsection \<open>Concrete services for the examples\<close>

text \<open>
  A small pdf-lib: a buffer holds one page per byte, the empty buffer does not parse, and
  a saved document has one byte per page (the number of texts on the page).
\<close>

definition demo_pdf :: pdflib where
  "demo_pdf =
     \<lparr>load = (\<lambda>b. if b = [] then Inl (Error ''Failed to parse PDF document'')
                   else Inr (map (\<lambda>x. Page [''invoice'']) b)),
      copyPages = Inr,
      save = map (\<lambda>p. case p of Page ts \<Rightarrow> of_nat (length ts))\<rparr>"

text \<open>
  Services whose Stripe client is \<open>s\<close> for every key, whose transport answers \<open>[1]\<close> to
  every request and whose mail transport is \<open>m\<close>; and an invoice link without a URL.
\<close>

definition demo_services :: "stripe \<Rightarrow> (mail \<Rightarrow> error option) \<Rightarrow> services" where
  "demo_services s m =
     \<lparr>initStripe = (\<lambda>k. Inr s), http_get = (\<lambda>k u. Inr [1]), pdf = demo_pdf,
      createTransport = (\<lambda>a. m)\<rparr>"

definition no_url_link :: pdfLink where
  "no_url_link =
     \<lparr>invoice_pdf = None, invoice_number = ''INV-7'', amount_paid = 0, amount_due = 1200\<rparr>"

definition empty_page :: stripe where
  "empty_page = (\<lambda>params. Inr \<lparr>data = Some [], has_more = False\<rparr>)"

text \<open>
  Stripe clients: one with three invoices on two pages, and one whose second list call
  raises.
\<close>

definition demo_invoice :: "string \<Rightarrow> string \<Rightarrow> invoice" where
  "demo_invoice i st =
     \<lparr>inv_id = i, inv_invoice_pdf = Some (''https://pay/'' @ i), inv_number = ''N-'' @ i,
      inv_status = st, inv_amount_paid = 0, inv_amount_due = 1200\<rparr>"

definition two_pages :: stripe where
  "two_pages params =
     (case starting_after params of
        None \<Rightarrow>
          Inr \<lparr>data = Some [demo_invoice ''in_1'' ''paid'', demo_invoice ''in_2'' ''void''],
               has_more = True\<rparr>
      | Some c \<Rightarrow>
          if c = ''in_2'' then Inr \<lparr>data = Some [demo_invoice ''in_3'' ''open''], has_more = False\<rparr>
          else Inl (Error ''No such invoice''))"


text \<open>
  The run of 2 February 2025 over January 2025, with the keys of \<open>PC\<close> and \<open>ET\<close> set
  and the one of \<open>PCP\<close> missing.
\<close>

definition demo_dates :: dates where
  "demo_dates =
     \<lparr>iso_now = ''2025-02-02T06:00:00.000Z'', iso_lastMonthDate = ''2025-01-01T00:00:00.000Z'',
      iso_startDate = ''2025-01-01T00:00:00.000Z'', iso_endDate = ''2025-01-31T23:59:59.999Z'',
      window_gte = 1735689600, window_lte = 1738367999, monthName = ''January'',
      yearText = ''2025''\<rparr>"

definition demo_env :: "string option \<Rightarrow> string option \<Rightarrow> env" where
  "demo_env adminEmail gmailAppPassword =
     \<lparr>STRIPE_PC = Some ''sk_pc'', STRIPE_ET = Some ''sk_et'', STRIPE_PCP = None,
      ADMIN_EMAIL = adminEmail, GMAIL_APP_PASSWORD = gmailAppPassword\<rparr>"

definition demo_config :: "(string \<times> string) list" where
  "demo_config = [(''PC'', ''sk_pc''), (''ET'', ''sk_et'')]"

text \<open>A mail transport that rejects the mail to the first destination and accepts others.\<close>

definition rejecting_first :: "mail \<Rightarrow> error option" where
  "rejecting_first m =
     (if mail_to m = ''mumair299792458u@gmail.com'' then Some (Error ''rejected'') else None)"

section \<open>Lemmas\<close>

subsection \<open>The retry loop\<close>

lemma pushLog_fetched: "fetched (pushLog w m) = fetched w"
  by (simp add: pushLog_def)

lemma truthy_Some: "u \<noteq> [] \<Longrightarrow> truthy (Some u) = Some u"
  by (simp add: truthy_def)

lemma download_attempts_all_fail:
  assumes fail: "\<forall>k. isl (get k u)" and u: "u \<noteq> []"
  shows "attempt \<le> maxAttempts \<Longrightarrow>
    fst (download_attempts get (Some u) n attempt w) = None \<and>
    fetched (snd (download_attempts get (Some u) n attempt w))
      = fetched w @ replicate (Suc maxAttempts - attempt) u"
proof (induction "maxAttempts - attempt" arbitrary: attempt w)
  case 0
  then have a: "attempt = maxAttempts" by simp
  obtain e where e: "get (length (fetched w)) u = Inl e"
    using fail by (metis isl_def)
  show ?case
    by (subst download_attempts.simps, subst (2) download_attempts.simps)
       (simp add: a try_download_def truthy_Some u e pushLog_fetched Let_def)
next
  case (Suc d)
  then have lt: "attempt < maxAttempts" by simp
  obtain e where e: "get (length (fetched w)) u = Inl e"
    using fail by (metis isl_def)
  define w2 where "w2 = pushLog (w\<lparr>fetched := fetched w @ [u]\<rparr>)
     (''Error downloading '' @ n @ '' (attempt '' @ string_of_nat attempt @ ''): ''
        @ string_of_error e)"
  have step: "download_attempts get (Some u) n attempt w
      = download_attempts get (Some u) n (attempt + 1) w2"
    using lt
    by (subst download_attempts.simps)
       (simp add: try_download_def truthy_Some u e Let_def w2_def)
  have d: "d = maxAttempts - (attempt + 1)" using Suc.hyps(2) by simp
  have le: "attempt + 1 \<le> maxAttempts" using lt by simp
  have f2: "fetched w2 = fetched w @ [u]" by (simp add: w2_def pushLog_fetched)
  have r: "replicate (Suc maxAttempts - attempt) u = u # replicate (Suc maxAttempts - (attempt + 1)) u"
    using lt by (cases "Suc maxAttempts - attempt") auto
  show ?case
    using Suc.hyps(1) [OF d le, of w2] by (simp add: step f2 r)
qed

lemma download_attempts_gen_all_fail:
  assumes fail: "\<forall>k. isl (get k u)" and u: "u \<noteq> []"
  shows "attempt \<le> maxAttempts \<Longrightarrow>
    fst (download_attempts_gen get (Some u) n attempt w)
      = Inl (Error (''Failed to download '' @ n @ '' after '' @ string_of_nat maxAttempts
          @ '' attempts'')) \<and>
    fetched (snd (download_attempts_gen get (Some u) n attempt w))
      = fetched w @ replicate (Suc maxAttempts - attempt) u"
proof (induction "maxAttempts - attempt" arbitrary: attempt w)
  case 0
  then have a: "attempt = maxAttempts" by simp
  obtain e where e: "get (length (fetched w)) u = Inl e"
    using fail by (metis isl_def)
  show ?case
    by (subst download_attempts_gen.simps, subst (2) download_attempts_gen.simps)
       (simp add: a try_download_gen_def truthy_Some u e pushLog_fetched Let_def)
next
  case (Suc d)
  then have lt: "attempt < maxAttempts" by simp
  obtain e where e: "get (length (fetched w)) u = Inl e"
    using fail by (metis isl_def)
  define w2 where "w2 = pushLog (pushLog (w\<lparr>fetched := fetched w @ [u]\<rparr>)
     (''Error downloading '' @ n @ '': '' @ string_of_error e))
     (''Retrying download of '' @ n @ '' (attempt '' @ string_of_nat attempt @ '')'')"
  have step: "download_attempts_gen get (Some u) n attempt w
      = download_attempts_gen get (Some u) n (attempt + 1) w2"
    using lt
    by (subst download_attempts_gen.simps)
       (simp add: try_download_gen_def truthy_Some u e Let_def w2_def)
  have d: "d = maxAttempts - (attempt + 1)" using Suc.hyps(2) by simp
  have le: "attempt + 1 \<le> maxAttempts" using lt by simp
  have f2: "fetched w2 = fetched w @ [u]" by (simp add: w2_def pushLog_fetched)
  have r: "replicate (Suc maxAttempts - attempt) u = u # replicate (Suc maxAttempts - (attempt + 1)) u"
    using lt by (cases "Suc maxAttempts - attempt") auto
  show ?case
    using Suc.hyps(1) [OF d le, of w2] by (simp add: step f2 r)
qed

lemma string_of_nat_5: "string_of_nat 5 = ''5''"
  by (simp add: string_of_nat.simps string_of_digit_def)

lemma download_attempts_gen_no_url:
  assumes "truthy url = None"
  shows "fetched (snd (download_attempts_gen get url n attempt w)) = fetched w"
proof (induction "Suc maxAttempts - attempt" arbitrary: attempt w)
  case 0
  then show ?case by (subst download_attempts_gen.simps) simp
next
  case (Suc d)
  then have le: "attempt \<le> maxAttempts" by simp
  show ?case
  proof (cases "attempt = maxAttempts")
    case True
    then show ?thesis
      by (subst download_attempts_gen.simps)
         (simp add: try_download_gen_def assms pushLog_fetched Let_def)
  next
    case False
    have d: "d = Suc maxAttempts - (attempt + 1)" using Suc.hyps(2) by simp
    show ?thesis
      using False le Suc.hyps(1) [OF d]
      by (subst download_attempts_gen.simps)
         (simp add: try_download_gen_def assms pushLog_fetched Let_def)
  qed
qed

subsection \<open>The merge loop\<close>






subsection \<open>The category block\<close>

lemma download_without_url:
  "truthy url = None \<Longrightarrow>
   downloadPdfInMemory get url n w = (None, pushLog w (''No PDF URL for invoice '' @ n))"
  unfolding downloadPdfInMemory_def
  by (subst download_attempts.simps) (simp add: try_download_def maxAttempts_def)


lemma finalPdf_no_links:
  "finalPdf svc configKey name [] w = (Some (save (pdf svc) placeholder), w)"
  by (simp add: finalPdf_def createEmptyPdf_def)

lemma finalPdf_range_placeholder:
  "cat_links = [] \<or> fst (download_links (http_get svc) cat_links [] w) = [] \<Longrightarrow>
   fst (finalPdf_range svc configKey name cat_links w) = Some (save (pdf svc) placeholder)"
  by (auto simp: finalPdf_range_def createEmptyPdf_def split: prod.splits)

subsection \<open>The listing loop\<close>

lemma each_invoice_eq:
  "each_invoice lines d (ls, w)
     = (classified ls d, w\<lparr>logs := logs w @ concat (map lines d)\<rparr>)"
proof (induction d arbitrary: ls w)
  case Nil
  then show ?case by (simp add: classified_def)
next
  case (Cons i d)
  show ?case
    by (simp add: Cons.IH push_link_def classified_def)
qed

lemma classified_append: "classified (classified ls xs) ys = classified ls (xs @ ys)"
  by (simp add: classified_def)

lemma classified_Nil: "classified ls [] = ls"
  by (simp add: classified_def)

lemma list_pages_Suc:
  "list_pages (Suc fuel) lines stripe gte lte cursor (ls, w) =
     (case stripe \<lparr>limit = 10, starting_after = cursor, created_gte = gte, created_lte = lte\<rparr> of
        Inl err \<Rightarrow>
          Some (Some err, ls,
            w\<lparr>stripe_calls := stripe_calls w
                @ [(\<lparr>limit = 10, starting_after = cursor, created_gte = gte,
                       created_lte = lte\<rparr>, Inl err)]\<rparr>)
      | Inr invoices \<Rightarrow>
          (let wa = w\<lparr>stripe_calls := stripe_calls w
                      @ [(\<lparr>limit = 10, starting_after = cursor, created_gte = gte,
                             created_lte = lte\<rparr>, Inr invoices)]\<rparr>
           in case data invoices of
                None \<Rightarrow> Some (None, ls, wa)
              | Some d \<Rightarrow>
                  if d = [] then Some (None, ls, wa)
                  else if \<not> has_more invoices
                       then Some (None, classified ls d,
                                  wa\<lparr>logs := logs wa @ concat (map lines d)\<rparr>)
                       else list_pages fuel lines stripe gte lte (Some (inv_id (last d)))
                              (classified ls d, wa\<lparr>logs := logs wa @ concat (map lines d)\<rparr>)))"
  by (simp add: Let_def each_invoice_eq last_conv_nth split: sum.splits option.splits)

lemma list_pages_trace:
  "list_pages fuel lines stripe gte lte cursor (ls, w) = Some (r, ls1, w1) \<Longrightarrow>
   \<exists>cs. stripe_calls w1 = stripe_calls w @ cs
      \<and> paged stripe gte lte cursor cs r
      \<and> (r = None \<longrightarrow> ls1 = classified ls (received cs))
      \<and> fetched w1 = fetched w \<and> sent w1 = sent w"
proof (induction fuel arbitrary: cursor ls w)
  case 0
  then show ?case by simp
next
  case (Suc fuel)
  define params where
    "params = \<lparr>limit = 10, starting_after = cursor, created_gte = gte, created_lte = lte\<rparr>"
  note prem = Suc.prems [unfolded list_pages_Suc, folded params_def]
  show ?case
  proof (cases "stripe params")
    case (Inl err)
    with prem have "r = Some err" "ls1 = ls"
      "w1 = w\<lparr>stripe_calls := stripe_calls w @ [(params, Inl err)]\<rparr>"
      by simp_all
    then show ?thesis
      by (intro exI [of _ "[(params, Inl err)]"]) (simp add: Inl params_def [symmetric])
  next
    case (Inr invoices)
    define wa where "wa = w\<lparr>stripe_calls := stripe_calls w @ [(params, Inr invoices)]\<rparr>"
    note prem2 = prem [unfolded Inr, simplified, folded wa_def]
    show ?thesis
    proof (cases "data invoices")
      case None
      with prem2 have "r = None" "ls1 = ls" "w1 = wa"
        by (simp_all add: Let_def)
      then show ?thesis
        by (intro exI [of _ "[(params, Inr invoices)]"])
           (simp add: wa_def Inr None params_def [symmetric] received_def page_records_def
              classified_Nil)
    next
      case (Some d)
      show ?thesis
      proof (cases "d = []")
        case True
        with prem2 Some have "r = None" "ls1 = ls" "w1 = wa"
          by (simp_all add: Let_def)
        then show ?thesis
          by (intro exI [of _ "[(params, Inr invoices)]"])
             (simp add: wa_def Inr Some True params_def [symmetric] received_def
                page_records_def classified_Nil)
      next
        case False
        define wb where "wb = wa\<lparr>logs := logs wa @ concat (map lines d)\<rparr>"
        show ?thesis
        proof (cases "has_more invoices")
          case no_more: False
          with prem2 Some False have "r = None" "ls1 = classified ls d" "w1 = wb"
            by (simp_all add: Let_def wb_def)
          then show ?thesis
            by (intro exI [of _ "[(params, Inr invoices)]"])
               (simp add: wa_def wb_def Inr Some False no_more params_def [symmetric]
                  received_def page_records_def)
        next
          case more: True
          from prem2 Some False more
          have rec: "list_pages fuel lines stripe gte lte (Some (inv_id (last d)))
                       (classified ls d, wb) = Some (r, ls1, w1)"
            by (simp add: Let_def wb_def)
          from Suc.IH [OF rec] obtain cs where cs:
            "stripe_calls w1 = stripe_calls wb @ cs"
            "paged stripe gte lte (Some (inv_id (last d))) cs r"
            "r = None \<longrightarrow> ls1 = classified (classified ls d) (received cs)"
            "fetched w1 = fetched wb" "sent w1 = sent wb"
            by blast
          show ?thesis
            using cs
            by (intro exI [of _ "(params, Inr invoices) # cs"])
               (simp add: wa_def wb_def Inr Some False more params_def [symmetric]
                  received_def page_records_def classified_append)
        qed
      qed
    qed
  qed
qed

subsection \<open>The list calls of a listing\<close>





lemma paged_raised:
  "paged s g l c cs r \<Longrightarrow> (\<exists>x \<in> set cs. isl (snd x)) = (r \<noteq> None)"
proof (induction s g l c cs r rule: paged.induct)
  case (1 s g l c r)
  then show ?case by simp
next
  case (2 s g l c params answer rest r)
  then show ?case
    by (auto split: sum.splits option.splits if_splits)
qed

lemma list_pages_more_fuel:
  "list_pages fuel lines stripe gte lte cursor st = Some res \<Longrightarrow>
   list_pages (fuel + k) lines stripe gte lte cursor st = Some res"
proof (induction fuel arbitrary: cursor st)
  case 0
  then show ?case by simp
next
  case (Suc fuel)
  obtain ls w where st: "st = (ls, w)" by (cases st)
  show ?case
    using Suc.prems Suc.IH
    unfolding st add_Suc list_pages_Suc
    by (auto simp: Let_def split: sum.splits option.splits if_splits)
qed


lemma two_pages_run:
  "\<exists>w1. getInvoices_with console_lines 3 two_pages 0 100 fresh
        = Some (\<lparr>paidAndOpenLinks = [pdfLink_of (demo_invoice ''in_1'' ''paid''),
                                     pdfLink_of (demo_invoice ''in_3'' ''open'')],
                  otherStatusLinks = [pdfLink_of (demo_invoice ''in_2'' ''void'')]\<rparr>, w1)
      \<and> map snd (stripe_calls w1)
          = [Inr \<lparr>data = Some [demo_invoice ''in_1'' ''paid'', demo_invoice ''in_2'' ''void''],
                  has_more = True\<rparr>,
             Inr \<lparr>data = Some [demo_invoice ''in_3'' ''open''], has_more = False\<rparr>]"
  by (simp add: getInvoices_with_def numeral_3_eq_3 list_pages_Suc two_pages_def no_links_def
      fresh_def classified_def push_link_def demo_invoice_def Let_def)

lemma classified_no_links:
  "paidAndOpenLinks (classified no_links rs)
     = map pdfLink_of (filter (\<lambda>i. inv_status i = ''paid'' \<or> inv_status i = ''open'') rs)
   \<and> otherStatusLinks (classified no_links rs)
     = map pdfLink_of (filter (\<lambda>i. inv_status i \<noteq> ''paid'' \<and> inv_status i \<noteq> ''open'') rs)"
  by (simp add: classified_def no_links_def)

lemma list_pages_links:
  assumes run: "list_pages fuel lines stripe gte lte None (no_links, w) = Some (r, ls2, w2)"
    and ok: "\<forall>x \<in> set (drop (length (stripe_calls w)) (stripe_calls w2)). \<not> isl (snd x)"
  shows "r = None \<and> ls2 = classified no_links
           (received (drop (length (stripe_calls w)) (stripe_calls w2)))"
proof -
  from list_pages_trace [OF run] obtain cs where
    c: "stripe_calls w2 = stripe_calls w @ cs" and p: "paged stripe gte lte None cs r"
    and l: "r = None \<longrightarrow> ls2 = classified no_links (received cs)"
    by blast
  have e: "drop (length (stripe_calls w)) (stripe_calls w2) = cs" using c by simp
  have "r = None" using paged_raised [OF p] ok e by auto
  with l e show ?thesis by simp
qed


subsection \<open>No mail is sent before the dispatch\<close>

lemma pushLog_sent: "sent (pushLog w m) = sent w"
  by (simp add: pushLog_def)

lemma try_download_sent: "try_download get url n w = (x, w1) \<Longrightarrow> sent w1 = sent w"
  by (auto simp: try_download_def pushLog_def split: option.splits sum.splits)

lemma download_attempts_sent:
  "sent (snd (download_attempts get url n attempt w)) = sent w"
proof (induction get url n attempt w rule: download_attempts.induct)
  case (1 get url n attempt w)
  show ?case
  proof (cases "attempt \<le> maxAttempts")
    case False
    then show ?thesis by (subst download_attempts.simps) simp
  next
    case True
    obtain x w1 where t: "try_download get url n w = (x, w1)"
      by (cases "try_download get url n w")
    have s1: "sent w1 = sent w" using try_download_sent [OF t] .
    show ?thesis
    proof (cases x)
      case (Inr result)
      then show ?thesis
        using True t s1 by (subst download_attempts.simps) simp
    next
      case (Inl err)
      show ?thesis
      proof (cases "attempt = maxAttempts")
        case True
        then show ?thesis
          using t Inl s1 by (subst download_attempts.simps) (simp add: pushLog_sent Let_def)
      next
        case False
        have "sent (snd (download_attempts get url n (attempt + 1)
                 (pushLog w1 (''Error downloading '' @ n @ '' (attempt ''
                         @ string_of_nat attempt @ ''): '' @ string_of_error err)))) = sent w"
          using "1.IH" [OF True t [symmetric] Inl refl False] s1 by (simp add: pushLog_sent)
        then show ?thesis
          using True False t Inl by (subst download_attempts.simps) (simp add: Let_def)
      qed
    qed
  qed
qed

lemma download_links_sent:
  "sent (snd (download_links get ls bufs w)) = sent w"
proof (induction ls arbitrary: bufs w)
  case Nil
  then show ?case by simp
next
  case (Cons invoice rest)
  obtain r w1 where d: "downloadPdfInMemory get (invoice_pdf invoice) (invoice_number invoice) w
      = (r, w1)"
    by (cases "downloadPdfInMemory get (invoice_pdf invoice) (invoice_number invoice) w")
  have "sent w1 = sent w"
    using download_attempts_sent [of get "invoice_pdf invoice" "invoice_number invoice" 1 w] d
    by (simp add: downloadPdfInMemory_def)
  then show ?case
    using Cons.IH d by (cases r) simp_all
qed

lemma mergePdfs_sent: "sent (snd (mergePdfs lib bufs w)) = sent w"
  by (simp add: mergePdfs_def pushLog_def split: sum.splits)

lemma createEmptyPdf_eq: "createEmptyPdf lib w = (Some (save lib placeholder), w)"
  by (simp add: createEmptyPdf_def)

lemma finalPdf_sent: "sent (snd (finalPdf svc configKey name ls w)) = sent w"
proof -
  obtain bufs w1 where d: "download_links (http_get svc) ls [] w = (bufs, w1)"
    by (cases "download_links (http_get svc) ls [] w")
  have s1: "sent w1 = sent w"
    using download_links_sent [of "http_get svc" ls "[]" w] d by simp
  obtain m w2 where mg: "mergePdfs (pdf svc) (map Some bufs) w1 = (m, w2)"
    by (cases "mergePdfs (pdf svc) (map Some bufs) w1")
  have s2: "sent w2 = sent w1"
    using mergePdfs_sent [of "pdf svc" "map Some bufs" w1] mg by simp
  show ?thesis
    by (cases m) (simp_all add: finalPdf_def d mg s1 s2 createEmptyPdf_eq pushLog_sent)
qed

lemma each_category_sent:
  "sent (snd (each_category svc d configKey cats (b, w))) = sent w"
proof (induction cats arbitrary: b w)
  case Nil
  then show ?case by simp
next
  case (Cons c cats)
  obtain name ls where c: "c = (name, ls)" by (cases c)
  obtain f w1 where fp: "finalPdf svc configKey name ls w = (f, w1)"
    by (cases "finalPdf svc configKey name ls w")
  have s1: "sent w1 = sent w"
    using finalPdf_sent [of svc configKey name ls w] fp by simp
  show ?case
    by (cases f) (simp_all add: c fp Cons.IH s1 pushLog_sent)
qed

lemma getInvoices_with_sent:
  "getInvoices_with lines fuel stripe gte lte w = Some (ls, w1) \<Longrightarrow> sent w1 = sent w"
  by (auto simp: getInvoices_with_def pushLog_def split: option.splits prod.splits
      dest: list_pages_trace)

lemma each_key_sent:
  "each_key lines fuel svc d keys (b, w) = Some (b1, w1) \<Longrightarrow> sent w1 = sent w"
proof (induction keys arbitrary: b w)
  case Nil
  then show ?case by simp
next
  case (Cons k keys)
  obtain configKey keyVal where k: "k = (configKey, keyVal)" by (cases k)
  show ?case
  proof (cases "truthy keyVal")
    case None
    with Cons.prems k have "each_key lines fuel svc d keys
        (b, pushLog w (''Missing environment variable for '' @ configKey @ '', skipping...''))
        = Some (b1, w1)"
      by simp
    from Cons.IH [OF this] show ?thesis by (simp add: pushLog_sent)
  next
    case (Some kv)
    show ?thesis
    proof (cases "initStripe svc kv")
      case (Inl err)
      with Cons.prems k Some have "each_key lines fuel svc d keys
        (b, pushLog w (''Error initializing Stripe or retrieving data for ''
                       @ configKey @ '': '' @ string_of_error err)) = Some (b1, w1)"
        by simp
      from Cons.IH [OF this] show ?thesis by (simp add: pushLog_sent)
    next
      case (Inr stripe)
      from Cons.prems k Some Inr obtain ls w2 where
        g: "getInvoices_with lines fuel stripe (window_gte d) (window_lte d) w = Some (ls, w2)"
        and r: "each_key lines fuel svc d keys
                  (each_category svc d configKey (categories ls) (b, w2)) = Some (b1, w1)"
        by (auto split: option.splits)
      obtain b3 w3 where c: "each_category svc d configKey (categories ls) (b, w2) = (b3, w3)"
        by (cases "each_category svc d configKey (categories ls) (b, w2)")
      have "sent w3 = sent w2"
        using each_category_sent [of svc d configKey "categories ls" b w2] c by simp
      moreover have "sent w1 = sent w3" using Cons.IH r c by simp
      ultimately show ?thesis using getInvoices_with_sent [OF g] by simp
    qed
  qed
qed

lemma collect_sent: "collect lines fuel svc e d = Some (b, w) \<Longrightarrow> sent w = []"
  using each_key_sent [of lines fuel svc d "STRIPE_KEYS e" no_bundles
      "fresh\<lparr>logs := start_lines d\<rparr>" b w]
  by (simp add: collect_def fresh_def)

lemma try_download_gen_sent: "try_download_gen get url n w = (x, w1) \<Longrightarrow> sent w1 = sent w"
  by (auto simp: try_download_gen_def pushLog_def split: option.splits sum.splits)

lemma download_attempts_gen_sent:
  "sent (snd (download_attempts_gen get url n attempt w)) = sent w"
proof (induction get url n attempt w rule: download_attempts_gen.induct)
  case (1 get url n attempt w)
  show ?case
  proof (cases "attempt \<le> maxAttempts")
    case False
    then show ?thesis by (subst download_attempts_gen.simps) simp
  next
    case True
    obtain x w1 where t: "try_download_gen get url n w = (x, w1)"
      by (cases "try_download_gen get url n w")
    have s1: "sent w1 = sent w" using try_download_gen_sent [OF t] .
    show ?thesis
    proof (cases x)
      case (Inr result)
      then show ?thesis
        using True t s1 by (subst download_attempts_gen.simps) simp
    next
      case (Inl err)
      show ?thesis
      proof (cases "attempt = maxAttempts")
        case True
        then show ?thesis
          using t Inl s1
          by (subst download_attempts_gen.simps) (simp add: pushLog_sent Let_def)
      next
        case False
        have "sent (snd (download_attempts_gen get url n (attempt + 1)
                 (pushLog (pushLog w1 (''Error downloading '' @ n @ '': ''
                             @ string_of_error err))
                    (''Retrying download of '' @ n @ '' (attempt '' @ string_of_nat attempt
                       @ '')'')))) = sent w"
          using "1.IH" [OF True t [symmetric] Inl refl False] s1 by (simp add: pushLog_sent)
        then show ?thesis
          using True False t Inl by (subst download_attempts_gen.simps) (simp add: Let_def)
      qed
    qed
  qed
qed

lemma download_links_gen_sent:
  "sent (snd (download_links_gen get ls bufs w)) = sent w"
proof (induction ls arbitrary: bufs w)
  case Nil
  then show ?case by simp
next
  case (Cons invoice rest)
  obtain r w1 where d:
    "downloadPdfInMemory_gen get (invoice_pdf invoice) (invoice_number invoice) w = (r, w1)"
    by (cases "downloadPdfInMemory_gen get (invoice_pdf invoice) (invoice_number invoice) w")
  have "sent w1 = sent w"
    using download_attempts_gen_sent [of get "invoice_pdf invoice" "invoice_number invoice" 1 w] d
    by (simp add: downloadPdfInMemory_gen_def)
  then show ?case
    using Cons.IH d by (auto split: sum.splits option.splits)
qed

lemma finalPdf_gen_sent: "sent (snd (finalPdf_gen svc ls w)) = sent w"
proof -
  obtain r w1 where d: "download_links_gen (http_get svc) ls [] w = (r, w1)"
    by (cases "download_links_gen (http_get svc) ls [] w")
  have s1: "sent w1 = sent w"
    using download_links_gen_sent [of "http_get svc" ls "[]" w] d by simp
  show ?thesis
    by (cases r) (simp_all add: finalPdf_gen_def d s1)
qed

lemma each_category_gen_sent:
  "sent (snd (each_category_gen svc d configKey cats (b, w))) = sent w"
proof (induction cats arbitrary: b w)
  case Nil
  then show ?case by simp
next
  case (Cons c cats)
  obtain name ls where c: "c = (name, ls)" by (cases c)
  obtain f w1 where fp: "finalPdf_gen svc ls w = (f, w1)"
    by (cases "finalPdf_gen svc ls w")
  have s1: "sent w1 = sent w"
    using finalPdf_gen_sent [of svc ls w] fp by simp
  show ?case
    by (cases f) (simp_all add: c fp Cons.IH s1)
qed

lemma getInvoices_gen_sent:
  "getInvoices_gen fuel stripe gte lte w = Some (r, w1) \<Longrightarrow> sent w1 = sent w"
  by (auto simp: getInvoices_gen_def split: option.splits prod.splits
      dest: list_pages_trace)

lemma each_key_gen_sent:
  "each_key_gen fuel svc d config (b, w) = Some (r, w1) \<Longrightarrow> sent w1 = sent w"
proof (induction config arbitrary: b w)
  case Nil
  then show ?case by simp
next
  case (Cons k config)
  obtain configKey keyVal where k: "k = (configKey, keyVal)" by (cases k)
  show ?case
  proof (cases "initStripe svc keyVal")
    case (Inl err)
    with Cons.prems k show ?thesis by simp
  next
    case (Inr stripe)
    from Cons.prems k Inr obtain g w2 where
      g: "getInvoices_gen fuel stripe (window_gte d) (window_lte d) w = Some (g, w2)"
      by (auto split: option.splits)
    have s2: "sent w2 = sent w" using getInvoices_gen_sent [OF g] .
    show ?thesis
    proof (cases g)
      case (Inl err)
      with Cons.prems k Inr g s2 show ?thesis by simp
    next
      case ls: (Inr ls)
      obtain c w3 where c: "each_category_gen svc d configKey (categories ls) (b, w2) = (c, w3)"
        by (cases "each_category_gen svc d configKey (categories ls) (b, w2)")
      have s3: "sent w3 = sent w2"
        using each_category_gen_sent [of svc d configKey "categories ls" b w2] c by simp
      show ?thesis
      proof (cases c)
        case (Inl err)
        with Cons.prems k Inr g ls c s2 s3 show ?thesis by simp
      next
        case b2: (Inr b2)
        with Cons.prems k Inr g ls c
        have "each_key_gen fuel svc d config (b2, w3) = Some (r, w1)" by simp
        from Cons.IH [OF this] s2 s3 show ?thesis by simp
      qed
    qed
  qed
qed

lemma collect_gen_sent: "collect_gen fuel svc config d = Some (r, w) \<Longrightarrow> sent w = []"
  using each_key_gen_sent [of fuel svc d config no_bundles
      "fresh\<lparr>logs := start_lines_gen d\<rparr>" r w]
  by (simp add: collect_gen_def fresh_def)

subsection \<open>The collection returns when every listing does\<close>

lemma each_key_returns:
  assumes "\<And>k stripe w. initStripe svc k = Inr stripe \<Longrightarrow>
             \<exists>res. getInvoices_with lines fuel stripe (window_gte d) (window_lte d) w = Some res"
  shows "\<exists>res. each_key lines fuel svc d keys st = Some res"
proof (induction keys arbitrary: st)
  case Nil
  then show ?case by simp
next
  case (Cons k keys)
  obtain configKey keyVal where k: "k = (configKey, keyVal)" by (cases k)
  obtain b w where st: "st = (b, w)" by (cases st)
  show ?case
  proof (cases "truthy keyVal")
    case None
    then show ?thesis using Cons.IH by (simp add: k st)
  next
    case (Some kv)
    show ?thesis
    proof (cases "initStripe svc kv")
      case (Inl err)
      then show ?thesis using Cons.IH Some by (simp add: k st)
    next
      case (Inr stripe)
      from assms [OF Inr, of w] obtain ls w1 where
        "getInvoices_with lines fuel stripe (window_gte d) (window_lte d) w = Some (ls, w1)"
        by auto
      then show ?thesis using Cons.IH Some Inr by (simp add: k st)
    qed
  qed
qed

lemma collect_returns:
  assumes "\<And>k stripe w. initStripe svc k = Inr stripe \<Longrightarrow>
             \<exists>res. getInvoices_with lines fuel stripe (window_gte d) (window_lte d) w = Some res"
  shows "\<exists>b w. collect lines fuel svc e d = Some (b, w)"
  using each_key_returns [OF assms, where keys = "STRIPE_KEYS e"
      and st = "(no_bundles, fresh\<lparr>logs := start_lines d\<rparr>)"]
  by (auto simp: collect_def)

lemma getInvoices_with_more_fuel:
  "getInvoices_with lines fuel stripe gte lte w = Some res \<Longrightarrow>
   getInvoices_with lines (fuel + k) stripe gte lte w = Some res"
proof -
  assume a: "getInvoices_with lines fuel stripe gte lte w = Some res"
  then obtain r where r: "list_pages fuel lines stripe gte lte None (no_links, w) = Some r"
    by (auto simp: getInvoices_with_def split: option.splits)
  from list_pages_more_fuel [OF r, of k] a r show ?thesis
    by (simp add: getInvoices_with_def)
qed

subsection \<open>The example runs\<close>

lemma toUpperCase_PC: "toUpperCase ''PC'' = ''PC''"
  by (simp add: toUpperCase_def upper_char_def)

lemma toUpperCase_ET: "toUpperCase ''ET'' = ''ET''"
  by (simp add: toUpperCase_def upper_char_def)

lemma empty_page_listing:
  "getInvoices_with lines (Suc fuel) empty_page gte lte w
     = Some (no_links,
         w\<lparr>stripe_calls := stripe_calls w
             @ [(\<lparr>limit = 10, starting_after = None, created_gte = gte, created_lte = lte\<rparr>,
                 Inr \<lparr>data = Some [], has_more = False\<rparr>)]\<rparr>)"
  by (simp add: getInvoices_with_def list_pages_Suc empty_page_def Let_def del: list_pages.simps)

lemma empty_page_listing_gen:
  "getInvoices_gen (Suc fuel) empty_page gte lte w
     = Some (Inr no_links,
         w\<lparr>stripe_calls := stripe_calls w
             @ [(\<lparr>limit = 10, starting_after = None, created_gte = gte, created_lte = lte\<rparr>,
                 Inr \<lparr>data = Some [], has_more = False\<rparr>)]\<rparr>)"
  by (simp add: getInvoices_gen_def list_pages_Suc empty_page_def Let_def del: list_pages.simps)

lemma demo_collect:
  "\<exists>b w. collect lines (Suc 0) (demo_services empty_page m) (demo_env adminEmail password)
            demo_dates = Some (b, w)
     \<and> map filename (attachmentsET b)
         = [''ET-Paid_And_Open-January-2025.pdf'', ''ET-Other_Status-January-2025.pdf'']
     \<and> map filename (attachmentsNonET b)
         = [''PC-Paid_And_Open-January-2025.pdf'', ''PC-Other_Status-January-2025.pdf'']
     \<and> map content (attachmentsET b) = [[1], [1]]
     \<and> last (logs w) = ''Missing environment variable for PCP, skipping...''"
  by (simp add: collect_def STRIPE_KEYS_def demo_env_def demo_services_def truthy_def
      empty_page_listing categories_def no_links_def finalPdf_def createEmptyPdf_def
      push_attachment_def attachment_name_def toUpperCase_PC toUpperCase_ET demo_dates_def
      no_bundles_def pushLog_def placeholder_def demo_pdf_def)

lemma demo_collect_gen:
  "\<exists>b w. collect_gen (Suc 0) (demo_services empty_page m) demo_config demo_dates
            = Some (Inr b, w)
     \<and> map filename (attachmentsET b)
         = [''ET-Paid_And_Open-January-2025.pdf'', ''ET-Other_Status-January-2025.pdf'']
     \<and> map filename (attachmentsNonET b)
         = [''PC-Paid_And_Open-January-2025.pdf'', ''PC-Other_Status-January-2025.pdf'']
     \<and> logs w = [''Start date: 2025-01-01T00:00:00.000Z'', ''End date: 2025-01-31T23:59:59.999Z'']"
  by (simp add: collect_gen_def demo_config_def demo_services_def
      empty_page_listing_gen categories_def no_links_def finalPdf_gen_def createEmptyPdf_gen_def
      push_attachment_def attachment_name_def toUpperCase_PC toUpperCase_ET demo_dates_def
      no_bundles_def start_lines_gen_def fresh_def)

lemma demo_credentials:
  "credentials (demo_env (Some ''admin@example.com'') (Some ''app-password''))
     = Some \<lparr>user = ''admin@example.com'', pass = ''app-password''\<rparr>"
  by (simp add: credentials_def demo_env_def truthy_def)

lemma rejecting_first_ET:
  "createTransport (demo_services s rejecting_first) a (mail_ET u d b) = Some (Error ''rejected'')"
  by (simp add: demo_services_def rejecting_first_def mail_ET_def)

lemma mail_to_ET: "mail_to (mail_ET u d b) = ''mumair299792458u@gmail.com''"
  by (simp add: mail_ET_def)

lemma mail_to_NonET: "mail_to (mail_NonET u d b) = ''uzairshabbirsab@gmail.com''"
  by (simp add: mail_NonET_def)

section \<open>The claims\<close>

subsection \<open>C1: the retry bound\<close>

text \<open>
  C1, as the code has it: when the URL is present and \<open>http.get\<close> fails on every attempt,
  \<open>downloadPdfInMemory\<close> asks for the URL exactly 5 times. The copies of
  \<^verbatim>\<open>scheduled/route.js\<close> and \<^verbatim>\<open>part_000\<close> then return \<open>null\<close>; the copy of
  \<^verbatim>\<open>generateAndEmail/route.js\<close> then throws \<open>Failed to download ... after 5 attempts\<close> to
  its caller.
\<close>

theorem download_retry_bound:
  assumes "u \<noteq> []" and "\<forall>k. isl (get k u)"
  shows "(\<exists>w1. downloadPdfInMemory get (Some u) n w = (None, w1)
            \<and> fetched w1 = fetched w @ replicate 5 u)
       \<and> (\<exists>w2. downloadPdfInMemory_gen get (Some u) n w
               = (Inl (Error (''Failed to download '' @ n @ '' after 5 attempts'')), w2)
            \<and> fetched w2 = fetched w @ replicate 5 u)"
proof -
  have le: "1 \<le> maxAttempts" by (simp add: maxAttempts_def)
  have five: "maxAttempts = 5" by (simp add: maxAttempts_def)
  have a: "fst (downloadPdfInMemory get (Some u) n w) = None
     \<and> fetched (snd (downloadPdfInMemory get (Some u) n w)) = fetched w @ replicate 5 u"
    using download_attempts_all_fail [where get = get and u = u and attempt = 1 and n = n
        and w = w] assms le
    by (simp add: downloadPdfInMemory_def five)
  have b: "fst (downloadPdfInMemory_gen get (Some u) n w)
        = Inl (Error (''Failed to download '' @ n @ '' after 5 attempts''))
     \<and> fetched (snd (downloadPdfInMemory_gen get (Some u) n w)) = fetched w @ replicate 5 u"
    using download_attempts_gen_all_fail [where get = get and u = u and attempt = 1 and n = n
        and w = w] assms le
    by (simp add: downloadPdfInMemory_gen_def five string_of_nat_5)
  from a b show ?thesis
    by (metis prod.collapse)
qed

text \<open>The theorem at a transport that always times out.\<close>

theorem download_retry_bound_witness:
  "(\<exists>w1. downloadPdfInMemory (\<lambda>k u. Inl (Error ''timeout'')) (Some ''https://pay/inv.pdf'')
            ''INV-1'' fresh = (None, w1)
          \<and> fetched w1 = replicate 5 ''https://pay/inv.pdf'')
   \<and> (\<exists>w2. downloadPdfInMemory_gen (\<lambda>k u. Inl (Error ''timeout'')) (Some ''https://pay/inv.pdf'')
            ''INV-1'' fresh = (Inl (Error ''Failed to download INV-1 after 5 attempts''), w2)
          \<and> fetched w2 = replicate 5 ''https://pay/inv.pdf'')"
  using download_retry_bound [of "''https://pay/inv.pdf''" "\<lambda>k u. Inl (Error ''timeout'')"
      "''INV-1''" fresh]
  by (simp add: fresh_def)

text \<open>
  C1 as stated fails on \<^verbatim>\<open>generateAndEmail/route.js\<close>: after the fifth failed attempt the
  download raises instead of returning \<open>null\<close>.
\<close>

theorem download_gen_raises_counterexample:
  "fst (downloadPdfInMemory_gen (\<lambda>k u. Inl (Error ''timeout'')) (Some ''https://pay/inv.pdf'')
          ''INV-1'' fresh)
     = Inl (Error ''Failed to download INV-1 after 5 attempts'')"
  by (simp add: downloadPdfInMemory_gen_def download_attempts_gen.simps try_download_gen_def
      truthy_def fresh_def pushLog_def maxAttempts_def string_of_nat.simps string_of_digit_def)

subsection \<open>C2: the absent document reference\<close>

text \<open>
  C2, as the code has it: when the URL is absent (\<open>null\<close>, \<open>undefined\<close> or empty), no copy
  calls \<open>http.get\<close>; the copies of \<^verbatim>\<open>scheduled/route.js\<close> and \<^verbatim>\<open>part_000\<close> return
  \<open>null\<close> in the first pass of the loop after appending exactly one log line.
\<close>

theorem download_no_url:
  assumes "truthy url = None"
  shows "downloadPdfInMemory get url n w
           = (None, w\<lparr>logs := logs w @ [''No PDF URL for invoice '' @ n]\<rparr>)
       \<and> fetched (snd (downloadPdfInMemory get url n w)) = fetched w
       \<and> fetched (snd (downloadPdfInMemory_gen get url n w)) = fetched w"
proof -
  have a: "downloadPdfInMemory get url n w
           = (None, w\<lparr>logs := logs w @ [''No PDF URL for invoice '' @ n]\<rparr>)"
    unfolding downloadPdfInMemory_def
    by (subst download_attempts.simps)
       (simp add: try_download_def assms pushLog_def maxAttempts_def)
  show ?thesis
    using download_attempts_gen_no_url [OF assms, of get n 1 w]
    by (simp add: a downloadPdfInMemory_gen_def)
qed

text \<open>The theorem at a \<open>null\<close> URL.\<close>

theorem download_no_url_witness:
  "downloadPdfInMemory (\<lambda>k u. Inr [1, 2]) None ''INV-7'' fresh
     = (None, fresh\<lparr>logs := [''No PDF URL for invoice INV-7'']\<rparr>)
   \<and> fetched (snd (downloadPdfInMemory (\<lambda>k u. Inr [1, 2]) None ''INV-7'' fresh)) = []
   \<and> fetched (snd (downloadPdfInMemory_gen (\<lambda>k u. Inr [1, 2]) None ''INV-7'' fresh)) = []"
  using download_no_url [of None "\<lambda>k u. Inr [1, 2]" "''INV-7''" fresh]
  by (simp add: truthy_def fresh_def)

text \<open>
  C2 as stated fails on \<^verbatim>\<open>generateAndEmail/route.js\<close>: the missing URL is thrown inside
  the \<open>try\<close> of the retry loop, so the loop runs all five passes (nine log lines) and
  then raises.
\<close>

theorem download_gen_no_url_counterexample:
  "fst (downloadPdfInMemory_gen (\<lambda>k u. Inr [1, 2]) None ''INV-7'' fresh)
     = Inl (Error ''Failed to download INV-7 after 5 attempts'')
   \<and> length (logs (snd (downloadPdfInMemory_gen (\<lambda>k u. Inr [1, 2]) None ''INV-7'' fresh))) = 9"
  by (simp add: downloadPdfInMemory_gen_def download_attempts_gen.simps try_download_gen_def
      truthy_def fresh_def pushLog_def maxAttempts_def string_of_nat.simps string_of_digit_def)

subsection \<open>C3: an exception while listing\<close>




subsection \<open>C4: the composite of a category without usable documents\<close>

text \<open>
  C4 fails in \<open>handler\<close> (\<^verbatim>\<open>scheduled/route.js\<close> lines 221-243) and in the first
  \<open>runMonthlyJob\<close>: for a category with one invoice that has no URL the buffer list is
  empty, \<open>mergePdfs\<close> is still called and returns the saved document without pages, which
  is not \<open>null\<close>, so the fallback to \<open>createEmptyPdf\<close> announced by the log line
  \<open>Merging failed or empty\<close> does not run. The composite is the document without pages,
  not the placeholder. (\<open>finalPdf_no_links\<close> and \<open>finalPdf_range_placeholder\<close> above are
  the cases where the claim holds: no links, and the second \<open>runMonthlyJob\<close>.)
\<close>

theorem finalPdf_zero_pages:
  "fst (finalPdf (demo_services empty_page (\<lambda>m. None)) ''PC'' ''Paid_And_Open'' [no_url_link]
          fresh) = Some (save demo_pdf [])
   \<and> save demo_pdf [] = []
   \<and> fst (createEmptyPdf demo_pdf fresh) = Some [1]"
  by (simp add: finalPdf_def download_without_url truthy_def no_url_link_def mergePdfs_def
      createEmptyPdf_def placeholder_def demo_pdf_def demo_services_def)

subsection \<open>C5: classification by status\<close>

text \<open>
  C5: for a listing in which no list call raised, in every copy, the first returned list
  holds exactly the received records whose status is \<open>paid\<close> or \<open>open\<close> and the second
  exactly the others, each in the order in which the source returned them.
\<close>

theorem listing_classifies:
  assumes "getInvoices_with lines fuel stripe gte lte w = Some (ls1, w1)
           \<or> getInvoices_gen fuel stripe gte lte w = Some (Inr ls1, w1)"
    and "cs = drop (length (stripe_calls w)) (stripe_calls w1)"
    and "\<forall>x \<in> set cs. \<not> isl (snd x)"
  shows "paidAndOpenLinks ls1
           = map pdfLink_of
               (filter (\<lambda>i. inv_status i = ''paid'' \<or> inv_status i = ''open'') (received cs))
       \<and> otherStatusLinks ls1
           = map pdfLink_of
               (filter (\<lambda>i. inv_status i \<noteq> ''paid'' \<and> inv_status i \<noteq> ''open'') (received cs))"
proof -
  from assms(1) obtain lines' r ls2 w2 where
    run: "list_pages fuel lines' stripe gte lte None (no_links, w) = Some (r, ls2, w2)"
    and sc: "stripe_calls w1 = stripe_calls w2"
    and res: "r = None \<longrightarrow> ls1 = ls2"
    by (auto simp: getInvoices_with_def getInvoices_gen_def pushLog_def
        split: option.splits prod.splits)
  have ok: "\<forall>x \<in> set (drop (length (stripe_calls w)) (stripe_calls w2)). \<not> isl (snd x)"
    using assms(2,3) sc by simp
  from list_pages_links [OF run ok] res
  have "ls1 = classified no_links (received cs)"
    using assms(2) sc by simp
  then show ?thesis
    using classified_no_links [of "received cs"] by simp
qed

text \<open>The theorem at a source with three invoices on two pages.\<close>

theorem listing_classifies_witness:
  "\<exists>ls1 w1. getInvoices_with console_lines 3 two_pages 0 100 fresh = Some (ls1, w1)
     \<and> received (stripe_calls w1)
         = [demo_invoice ''in_1'' ''paid'', demo_invoice ''in_2'' ''void'',
            demo_invoice ''in_3'' ''open'']
     \<and> paidAndOpenLinks ls1
         = [pdfLink_of (demo_invoice ''in_1'' ''paid''), pdfLink_of (demo_invoice ''in_3'' ''open'')]
     \<and> otherStatusLinks ls1 = [pdfLink_of (demo_invoice ''in_2'' ''void'')]"
proof -
  from two_pages_run obtain ls1 w1 where
    run: "getInvoices_with console_lines 3 two_pages 0 100 fresh = Some (ls1, w1)"
    and answers: "map snd (stripe_calls w1)
          = [Inr \<lparr>data = Some [demo_invoice ''in_1'' ''paid'', demo_invoice ''in_2'' ''void''],
                  has_more = True\<rparr>,
             Inr \<lparr>data = Some [demo_invoice ''in_3'' ''open''], has_more = False\<rparr>]"
    by (elim exE conjE)
  have cs: "stripe_calls w1 = drop (length (stripe_calls fresh)) (stripe_calls w1)"
    by (simp add: fresh_def)
  have rec: "received (stripe_calls w1)
         = [demo_invoice ''in_1'' ''paid'', demo_invoice ''in_2'' ''void'',
            demo_invoice ''in_3'' ''open'']"
    using answers by (auto simp: received_def page_records_def map_eq_Cons_conv)
  have ok: "\<forall>x \<in> set (stripe_calls w1). \<not> isl (snd x)"
    using answers by (auto simp: map_eq_Cons_conv)
  show ?thesis
    using run rec listing_classifies [OF disjI1 [OF run] cs ok]
    by (simp add: demo_invoice_def)
qed

subsection \<open>C6: pagination\<close>



subsection \<open>C7: missing mailer credentials\<close>




subsection \<open>C8: a failed dispatch\<close>

text \<open>
  C8, as the code has it: with credentials present, both groups non-empty and the send to
  the first group (ET) failing, \<open>handler\<close> and \<open>runMonthlyJob\<close> still hand the mail of
  the second group to \<open>sendMail\<close> and answer \<open>success: true\<close>; \<open>POST\<close> of
  \<^verbatim>\<open>generateAndEmail/route.js\<close> sends nothing after the failed mail and answers
  \<open>success: false\<close> with status 500.
\<close>

theorem partial_dispatch:
  assumes "credentials e = Some a"
    and "attachmentsET b \<noteq> []" and "attachmentsNonET b \<noteq> []"
    and "createTransport svc a (mail_ET (user a) d b) = Some err"
  shows "(collect console_lines fuel svc e d = Some (b, w) \<longrightarrow>
            (\<exists>w1. handler fuel svc e d
                    = Some (\<lparr>success = Some True, message = None, status = 200\<rparr>, w1)
                 \<and> sent w1 = [mail_ET (user a) d b, mail_NonET (user a) d b]))
       \<and> (collect pushed_lines fuel svc e d = Some (b, w) \<longrightarrow>
            (\<exists>r w1. runMonthlyJob fuel svc e d = Some (r, w1) \<and> job_success r
                 \<and> sent w1 = [mail_ET (user a) d b, mail_NonET (user a) d b]))
       \<and> (collect_gen fuel svc config d = Some (Inr b, w) \<longrightarrow>
            (\<exists>w1. POST fuel svc e config d
                    = Some (\<lparr>success = Some False, message = Some (error_message err),
                             status = 500\<rparr>, w1)
                 \<and> sent w1 = [mail_ET (user a) d b]))"
proof -
  have dl: "\<exists>w1. deliver svc e d b w = (True, w1)
            \<and> sent w1 = [mail_ET (user a) d b, mail_NonET (user a) d b]"
    if s: "sent w = []" for w
    using assms s
    by (auto simp: deliver_def send_ET_def send_NonET_def sendMail_def pushLog_def
        split: option.splits)
  have h: "\<exists>w1. handler fuel svc e d
                    = Some (\<lparr>success = Some True, message = None, status = 200\<rparr>, w1)
                 \<and> sent w1 = [mail_ET (user a) d b, mail_NonET (user a) d b]"
    if c: "collect console_lines fuel svc e d = Some (b, w)"
    using dl [OF collect_sent [OF c]] by (auto simp: handler_def c)
  have j: "\<exists>r w1. runMonthlyJob fuel svc e d = Some (r, w1) \<and> job_success r
                 \<and> sent w1 = [mail_ET (user a) d b, mail_NonET (user a) d b]"
    if c: "collect pushed_lines fuel svc e d = Some (b, w)"
    using dl [OF collect_sent [OF c]] by (auto simp: runMonthlyJob_def c)
  have p: "\<exists>w1. POST fuel svc e config d
                    = Some (\<lparr>success = Some False, message = Some (error_message err),
                             status = 500\<rparr>, w1)
                 \<and> sent w1 = [mail_ET (user a) d b]"
    if c: "collect_gen fuel svc config d = Some (Inr b, w)"
    using collect_gen_sent [OF c] assms
    by (simp add: POST_def POST_body_def c deliver_gen_def sendMail_def pushLog_def)
  from h j p show ?thesis by blast
qed

text \<open>
  The theorem at a run over two accounts without invoices (two placeholder attachments per
  group) whose transport rejects the mail to the first destination.
\<close>

theorem partial_dispatch_witness:
  "(\<exists>w1. handler (Suc 0) (demo_services empty_page rejecting_first)
            (demo_env (Some ''admin@example.com'') (Some ''app-password'')) demo_dates
            = Some (\<lparr>success = Some True, message = None, status = 200\<rparr>, w1)
          \<and> map mail_to (sent w1) = [''mumair299792458u@gmail.com'', ''uzairshabbirsab@gmail.com''])
   \<and> (\<exists>r w1. runMonthlyJob (Suc 0) (demo_services empty_page rejecting_first)
            (demo_env (Some ''admin@example.com'') (Some ''app-password'')) demo_dates
            = Some (r, w1)
          \<and> job_success r
          \<and> map mail_to (sent w1) = [''mumair299792458u@gmail.com'', ''uzairshabbirsab@gmail.com''])
   \<and> (\<exists>w1. POST (Suc 0) (demo_services empty_page rejecting_first)
            (demo_env (Some ''admin@example.com'') (Some ''app-password'')) demo_config demo_dates
            = Some (\<lparr>success = Some False, message = Some ''rejected'', status = 500\<rparr>, w1)
          \<and> map mail_to (sent w1) = [''mumair299792458u@gmail.com''])"
proof -
  let ?svc = "demo_services empty_page rejecting_first"
  let ?env = "demo_env (Some ''admin@example.com'') (Some ''app-password'')"
  let ?a = "\<lparr>user = ''admin@example.com'', pass = ''app-password''\<rparr>"
  obtain b1 w1 where c1: "collect console_lines (Suc 0) ?svc ?env demo_dates = Some (b1, w1)"
    and n1: "attachmentsET b1 \<noteq> []" "attachmentsNonET b1 \<noteq> []"
    using demo_collect [of console_lines rejecting_first "Some ''admin@example.com''"
        "Some ''app-password''"] by auto
  obtain b2 w2 where c2: "collect pushed_lines (Suc 0) ?svc ?env demo_dates = Some (b2, w2)"
    and n2: "attachmentsET b2 \<noteq> []" "attachmentsNonET b2 \<noteq> []"
    using demo_collect [of pushed_lines rejecting_first "Some ''admin@example.com''"
        "Some ''app-password''"] by auto
  obtain b3 w3 where c3: "collect_gen (Suc 0) ?svc demo_config demo_dates = Some (Inr b3, w3)"
    and n3: "attachmentsET b3 \<noteq> []" "attachmentsNonET b3 \<noteq> []"
    using demo_collect_gen [of rejecting_first] by auto
  have t1: "\<exists>w1. handler (Suc 0) ?svc ?env demo_dates
            = Some (\<lparr>success = Some True, message = None, status = 200\<rparr>, w1)
          \<and> map mail_to (sent w1) = [''mumair299792458u@gmail.com'', ''uzairshabbirsab@gmail.com'']"
    using partial_dispatch [OF demo_credentials n1 rejecting_first_ET [where s = empty_page],
        where fuel = "Suc 0" and d = demo_dates and w = w1 and config = demo_config] c1
    by (auto simp: mail_to_ET mail_to_NonET)
  have t2: "\<exists>r w1. runMonthlyJob (Suc 0) ?svc ?env demo_dates = Some (r, w1) \<and> job_success r
          \<and> map mail_to (sent w1) = [''mumair299792458u@gmail.com'', ''uzairshabbirsab@gmail.com'']"
    using partial_dispatch [OF demo_credentials n2 rejecting_first_ET [where s = empty_page],
        where fuel = "Suc 0" and d = demo_dates and w = w2 and config = demo_config] c2
    by (auto simp: mail_to_ET mail_to_NonET)
  have t3: "\<exists>w1. POST (Suc 0) ?svc ?env demo_config demo_dates
            = Some (\<lparr>success = Some False, message = Some ''rejected'', status = 500\<rparr>, w1)
          \<and> map mail_to (sent w1) = [''mumair299792458u@gmail.com'']"
    using partial_dispatch [OF demo_credentials n3 rejecting_first_ET [where s = empty_page],
        where fuel = "Suc 0" and d = demo_dates and w = w3 and config = demo_config] c3
    by (auto simp: mail_to_ET)
  from t1 t2 t3 show ?thesis by blast
qed

text \<open>
  C8 as stated fails on \<^verbatim>\<open>generateAndEmail/route.js\<close>: the second group is never sent and
  the run does not report success.
\<close>

theorem POST_dispatch_aborts_counterexample:
  "\<exists>w1. POST (Suc 0) (demo_services empty_page rejecting_first)
            (demo_env (Some ''admin@example.com'') (Some ''app-password'')) demo_config demo_dates
            = Some (\<lparr>success = Some False, message = Some ''rejected'', status = 500\<rparr>, w1)
      \<and> map mail_to (sent w1) = [''mumair299792458u@gmail.com'']"
proof -
  obtain b3 w3 where
    c3: "collect_gen (Suc 0) (demo_services empty_page rejecting_first) demo_config demo_dates
           = Some (Inr b3, w3)"
    and n3: "attachmentsET b3 \<noteq> []" "attachmentsNonET b3 \<noteq> []"
    using demo_collect_gen [of rejecting_first] by auto
  have s3: "sent w3 = []" using collect_gen_sent [OF c3] .
  show ?thesis
    using n3
    by (simp add: POST_def POST_body_def c3 deliver_gen_def demo_credentials sendMail_def
        rejecting_first_ET s3 mail_to_ET pushLog_def)
qed

subsection \<open>C9: merging\<close>




subsection \<open>C10: merging nothing\<close>



end
